theory Spec2Isabelle
  imports Main
begin

section \<open>Python strings\<close>

text \<open>
  A Python \<^verbatim>\<open>str\<close> is modelled as a \<^typ>\<open>string\<close>, each \<^typ>\<open>char\<close> read as the code
  point of the same number (U+0000 to U+00FF), so that \<^const>\<open>length\<close> is Python's
  \<^verbatim>\<open>len\<close>. The string methods below are the ones the program calls, with the
  behaviour CPython has on these code points.
\<close>

definition isspace :: "char \<Rightarrow> bool" where
  \<comment> \<open>\<^verbatim>\<open>str.isspace\<close> on one character; it is the set that \<^verbatim>\<open>strip()\<close> and \<^verbatim>\<open>split()\<close> use.\<close>
  "isspace c =
     (let n = (of_char c :: nat)
      in (9 \<le> n \<and> n \<le> 13) \<or> (28 \<le> n \<and> n \<le> 32) \<or> n = 133 \<or> n = 160)"

definition char_lower :: "char \<Rightarrow> char" where
  \<comment> \<open>\<^verbatim>\<open>str.lower\<close> on one character: A-Z, and the upper-case letters U+00C0 to U+00DE
      (U+00D7, the multiplication sign, is not a letter).\<close>
  "char_lower c =
     (let n = (of_char c :: nat)
      in if (65 \<le> n \<and> n \<le> 90) \<or> (192 \<le> n \<and> n \<le> 222 \<and> n \<noteq> 215)
         then char_of (n + 32) else c)"

definition str_lower :: "string \<Rightarrow> string" where
  "str_lower s = map char_lower s"

definition str_strip :: "string \<Rightarrow> string" where
  \<comment> \<open>\<^verbatim>\<open>s.strip()\<close>: leading and trailing whitespace removed.\<close>
  "str_strip s = rev (dropWhile isspace (rev (dropWhile isspace s)))"

fun str_startswith :: "string \<Rightarrow> string \<Rightarrow> bool" where
  \<comment> \<open>\<^verbatim>\<open>s.startswith(k)\<close>, the keyword first.\<close>
  "str_startswith [] s = True"
| "str_startswith (k # ks) [] = False"
| "str_startswith (k # ks) (c # cs) = (k = c \<and> str_startswith ks cs)"

fun str_in :: "string \<Rightarrow> string \<Rightarrow> bool" where
  \<comment> \<open>\<^verbatim>\<open>k in s\<close> for two strings: \<open>k\<close> occurs in \<open>s\<close> as a contiguous substring.\<close>
  "str_in k [] = (k = [])"
| "str_in k (c # cs) = (str_startswith k (c # cs) \<or> str_in k cs)"

definition split_first :: "char \<Rightarrow> string \<Rightarrow> string" where
  \<comment> \<open>\<^verbatim>\<open>s.split(sep)[0]\<close> for a one-character separator: the part before the first
      separator, the whole string when there is none (the list is never empty).\<close>
  "split_first sep s = takeWhile (\<lambda>c. c \<noteq> sep) s"

fun str_join :: "string \<Rightarrow> string list \<Rightarrow> string" where
  \<comment> \<open>\<^verbatim>\<open>sep.join(xs)\<close>\<close>
  "str_join sep [] = []"
| "str_join sep [x] = x"
| "str_join sep (x # y # ys) = x @ sep @ str_join sep (y # ys)"

fun split_ws_aux :: "string \<Rightarrow> string \<Rightarrow> string list" where
  \<comment> \<open>The scan of \<^verbatim>\<open>s.split()\<close>; the first argument is the current token, reversed.\<close>
  "split_ws_aux cur [] = (if cur = [] then [] else [rev cur])"
| "split_ws_aux cur (c # cs) =
     (if isspace c
      then (if cur = [] then split_ws_aux [] cs else rev cur # split_ws_aux [] cs)
      else split_ws_aux (c # cur) cs)"

definition str_split :: "string \<Rightarrow> string list" where
  \<comment> \<open>\<^verbatim>\<open>s.split()\<close>: the maximal runs of non-whitespace characters, in order.\<close>
  "str_split s = split_ws_aux [] s"

section \<open>The affiliation classifier (pubmed\_api.py)\<close>

definition academic_keywords :: "string list" where
  "academic_keywords =
     [''university'', ''college'', ''institute'', ''school'', ''academy'',
      ''hospital'', ''clinic'', ''medical center'', ''health center'',
      ''laboratory'', ''national'', ''federal'', ''ministry'', ''department of'',
      ''center for'', ''research center'', ''foundation'', ''association'']"

definition company_keywords :: "string list" where
  "company_keywords =
     [''pharma'', ''biotech'', ''therapeutics'', ''biosciences'', ''inc'', ''llc'',
      ''ltd'', ''limited'', ''corp'', ''corporation'', ''co.'', ''company'', ''gmbh'',
      ''laboratories'', ''labs'', ''biopharma'', ''pharmaceuticals'']"

definition extract_company_name :: "string \<Rightarrow> string" where
  \<comment> \<open>\<^verbatim>\<open>PubMedAPI._extract_company_name\<close>\<close>
  "extract_company_name affiliation =
     (let fallback = str_strip (take 50 affiliation)
      in if str_in '','' affiliation
         then (let potential_company = str_strip (split_first CHR '','' affiliation)
               in if length potential_company > 3 \<and> length potential_company < 50
                  then potential_company
                  else fallback)
         else fallback)"

definition is_academic :: "string \<Rightarrow> bool" where
  \<comment> \<open>\<^verbatim>\<open>any(academic_kw in affiliation_lower for academic_kw in academic_keywords)\<close>\<close>
  "is_academic affiliation_lower =
     list_ex (\<lambda>academic_kw. str_in academic_kw affiliation_lower) academic_keywords"

fun company_loop :: "string list \<Rightarrow> string \<Rightarrow> string \<Rightarrow> (bool \<times> string option) option" where
  \<comment> \<open>The \<^verbatim>\<open>for keyword in company_keywords\<close> loop of the classifier over the keywords
      still to try; \<open>Some r\<close> when the loop returns \<open>r\<close>, \<open>None\<close> when it runs to its end.\<close>
  "company_loop [] affiliation_lower affiliation = None"
| "company_loop (keyword # rest) affiliation_lower affiliation =
     (if str_in keyword affiliation_lower
      then (if \<not> is_academic affiliation_lower
            then Some (True, Some (extract_company_name affiliation))
            else company_loop rest affiliation_lower affiliation)
      else company_loop rest affiliation_lower affiliation)"

definition is_non_academic_affiliation :: "string \<Rightarrow> bool \<times> string option" where
  \<comment> \<open>\<^verbatim>\<open>PubMedAPI.is_non_academic_affiliation\<close>: the pair (is\_non\_academic, company\_name).\<close>
  "is_non_academic_affiliation affiliation =
     (let affiliation_lower = str_lower affiliation
      in case company_loop company_keywords affiliation_lower affiliation of
           Some r \<Rightarrow> r
         | None \<Rightarrow>
            (if \<not> list_ex (\<lambda>keyword. str_in keyword affiliation_lower) academic_keywords
             then (if str_in '','' affiliation
                   then (True, Some (extract_company_name affiliation))
                   else (False, None))
             else (False, None)))"

section \<open>The record schema\<close>

text \<open>
  The parsed record is a nest of dictionaries with strings at the leaves. Each dictionary
  is a record whose fields are the keys the program reads, \<open>None\<close> for an absent key.
  The two dictionaries whose emptiness the program tests carry a flag for the presence
  of any other key.
\<close>

record pub_date =
  Year :: "string option"
  Month :: "string option"
  Day :: "string option"
  MedlineDate :: "string option"

record journal_issue =
  PubDate :: "pub_date option"

record journal =
  JournalIssue :: "journal_issue option"

record affiliation_info =
  Affiliation :: "string option"

record author =
  LastName :: "string option"
  ForeName :: "string option"
  Initials :: "string option"
  CollectiveName :: "string option"
  AffiliationInfo :: "affiliation_info list option"

record article =
  ArticleTitle :: "string option"
  Journal :: "journal option"
  AuthorList :: "author list option"
  article_other_keys :: bool

record medline_citation =
  Article :: "article option"

record paper_data =
  MedlineCitation :: "medline_citation option"
  paper_other_keys :: bool

definition empty_article :: article where
  \<comment> \<open>the dictionary \<^verbatim>\<open>{}\<close> as an article\<close>
  "empty_article =
     \<lparr>ArticleTitle = None, Journal = None, AuthorList = None, article_other_keys = False\<rparr>"

definition empty_paper :: paper_data where
  \<comment> \<open>the dictionary \<^verbatim>\<open>{}\<close> as a fetched record\<close>
  "empty_paper = \<lparr>MedlineCitation = None, paper_other_keys = False\<rparr>"

definition article_falsy :: "article \<Rightarrow> bool" where
  \<comment> \<open>\<^verbatim>\<open>not article_data\<close>: the dictionary has no key\<close>
  "article_falsy a =
     (ArticleTitle a = None \<and> Journal a = None \<and> AuthorList a = None \<and> \<not> article_other_keys a)"

definition paper_falsy :: "paper_data \<Rightarrow> bool" where
  \<comment> \<open>\<^verbatim>\<open>not paper_data\<close>: the dictionary has no key\<close>
  "paper_falsy p = (MedlineCitation p = None \<and> \<not> paper_other_keys p)"

text \<open>The dictionary that \<^verbatim>\<open>_process_single_paper\<close> returns.\<close>

record paper_summary =
  PubmedID :: string
  Title :: string
  Publication_Date :: string
  non_academic_authors :: string
  company_affiliations :: string
  corresponding_email :: string

section \<open>The environment\<close>

datatype py_exception = IndexError | EntrezError string

text \<open>
  What the program takes from outside: the two Entrez calls, each followed by
  \<^verbatim>\<open>Entrez.read\<close>, as steps on a state of the outside world \<open>'w\<close> that either raise or
  give the part of the answer the program reads (\<^verbatim>\<open>record["IdList"]\<close>,
  \<^verbatim>\<open>records["PubmedArticle"]\<close>); the regular-expression search of
  \<^verbatim>\<open>extract_corresponding_email\<close>, which catches its own exceptions and gives an
  optional string; and the order in which the interpreter iterates over
  \<^verbatim>\<open>set(xs)\<close>.
\<close>

record 'w env =
  esearch :: "'w \<Rightarrow> string \<Rightarrow> int \<Rightarrow> (py_exception + string list) \<times> 'w"
  efetch :: "'w \<Rightarrow> string \<Rightarrow> (py_exception + paper_data list) \<times> 'w"
  extract_corresponding_email :: "paper_data \<Rightarrow> string option"
  set_order :: "string list \<Rightarrow> string list"

definition py_set_order :: "(string list \<Rightarrow> string list) \<Rightarrow> bool" where
  \<comment> \<open>Iterating over \<^verbatim>\<open>set(xs)\<close> visits each element of \<open>xs\<close> once, in some order.\<close>
  "py_set_order f = (\<forall>xs. distinct (f xs) \<and> set (f xs) = set xs)"

definition search_papers ::
  "'w env \<Rightarrow> 'w \<Rightarrow> string \<Rightarrow> int \<Rightarrow> (py_exception + string list) \<times> 'w" where
  \<comment> \<open>\<^verbatim>\<open>PubMedAPI.search_papers\<close>: the exception is logged and raised again.\<close>
  "search_papers env w query max_results =
     (case esearch env w query max_results of
        (Inr pmids, w') \<Rightarrow> (Inr pmids, w')
      | (Inl e, w') \<Rightarrow> (Inl e, w'))"

definition fetch_paper_details :: "'w env \<Rightarrow> 'w \<Rightarrow> string \<Rightarrow> paper_data \<times> 'w" where
  \<comment> \<open>\<^verbatim>\<open>PubMedAPI.fetch_paper_details\<close>: \<^verbatim>\<open>{}\<close> for an empty answer and for any exception.\<close>
  "fetch_paper_details env w pmid =
     (case efetch env w pmid of
        (Inr records, w') \<Rightarrow>
          (case records of
             [] \<Rightarrow> (empty_paper, w')
           | article # _ \<Rightarrow> (article, w'))
      | (Inl e, w') \<Rightarrow> (empty_paper, w'))"

section \<open>The paper processor (paper\_processor.py)\<close>

definition format_author_name :: "author \<Rightarrow> string" where
  \<comment> \<open>\<^verbatim>\<open>PaperProcessor._format_author_name\<close>\<close>
  "format_author_name a =
     (case LastName a of
        Some l \<Rightarrow>
          (case ForeName a of
             Some f \<Rightarrow> l @ '' '' @ f
           | None \<Rightarrow>
              (case Initials a of
                 Some i \<Rightarrow> l @ '' '' @ i
               | None \<Rightarrow> l))
      | None \<Rightarrow>
          (case CollectiveName a of
             Some c \<Rightarrow> c
           | None \<Rightarrow> ''Unknown Author''))"

definition publication_date_body :: "article \<Rightarrow> py_exception + string" where
  \<comment> \<open>The \<^verbatim>\<open>try\<close> block of \<^verbatim>\<open>_extract_publication_date\<close>; \<^verbatim>\<open>split()[0]\<close> raises
      IndexError when the list of tokens is empty.\<close>
  "publication_date_body article_data =
     (case Journal article_data of
        None \<Rightarrow> Inr ''Unknown''
      | Some j \<Rightarrow>
         (case JournalIssue j of
            None \<Rightarrow> Inr ''Unknown''
          | Some journal_issue \<Rightarrow>
             (case PubDate journal_issue of
                None \<Rightarrow> Inr ''Unknown''
              | Some pub_date \<Rightarrow>
                 (case Year pub_date of
                    Some y \<Rightarrow>
                      (case Month pub_date of
                         Some m \<Rightarrow>
                           (case Day pub_date of
                              Some d \<Rightarrow> Inr (y @ ''-'' @ m @ ''-'' @ d)
                            | None \<Rightarrow> Inr (y @ ''-'' @ m))
                       | None \<Rightarrow> Inr y)
                  | None \<Rightarrow>
                      (case MedlineDate pub_date of
                         Some md \<Rightarrow>
                           (case str_split md of
                              [] \<Rightarrow> Inl IndexError
                            | tok # _ \<Rightarrow> Inr tok)
                       | None \<Rightarrow> Inr ''Unknown'')))))"

definition extract_publication_date :: "article \<Rightarrow> string" where
  \<comment> \<open>\<^verbatim>\<open>PaperProcessor._extract_publication_date\<close>: the \<^verbatim>\<open>except\<close> clause gives "Unknown".\<close>
  "extract_publication_date article_data =
     (case publication_date_body article_data of
        Inr s \<Rightarrow> s
      | Inl e \<Rightarrow> ''Unknown'')"

fun affiliation_loop ::
  "string \<Rightarrow> affiliation_info list \<Rightarrow> string list \<times> string list \<Rightarrow> string list \<times> string list" where
  \<comment> \<open>The loop over one author's \<^verbatim>\<open>AffiliationInfo\<close>; the state is the pair of lists
      (non\_academic\_authors, company\_affiliations).\<close>
  "affiliation_loop author_name [] (authors, companies) = (authors, companies)"
| "affiliation_loop author_name (affiliation_info # rest) (authors, companies) =
     (let affiliation = (case Affiliation affiliation_info of Some s \<Rightarrow> s | None \<Rightarrow> []);
          (is_non_academic, company_name) = is_non_academic_affiliation affiliation
      in case company_name of
           Some name \<Rightarrow>
             (if is_non_academic \<and> name \<noteq> []
              then affiliation_loop author_name rest
                     (authors @ [author_name],
                      if name \<notin> set companies then companies @ [name] else companies)
              else affiliation_loop author_name rest (authors, companies))
         | None \<Rightarrow> affiliation_loop author_name rest (authors, companies))"

fun author_loop :: "author list \<Rightarrow> string list \<times> string list \<Rightarrow> string list \<times> string list" where
  \<comment> \<open>The loop over \<^verbatim>\<open>AuthorList\<close>.\<close>
  "author_loop [] st = st"
| "author_loop (author # rest) st =
     (let author_name = format_author_name author
      in case AffiliationInfo author of
           Some infos \<Rightarrow> author_loop rest (affiliation_loop author_name infos st)
         | None \<Rightarrow> author_loop rest st)"

definition article_of :: "paper_data \<Rightarrow> article" where
  \<comment> \<open>\<^verbatim>\<open>paper_data.get("MedlineCitation", {}).get("Article", {})\<close>\<close>
  "article_of paper =
     (case MedlineCitation paper of
        None \<Rightarrow> empty_article
      | Some mc \<Rightarrow> (case Article mc of None \<Rightarrow> empty_article | Some a \<Rightarrow> a))"

definition collect_non_academic :: "article \<Rightarrow> string list \<times> string list" where
  \<comment> \<open>The two lists when the loops of \<^verbatim>\<open>_process_single_paper\<close> have run.\<close>
  "collect_non_academic article_data =
     (case AuthorList article_data of
        Some author_list \<Rightarrow> author_loop author_list ([], [])
      | None \<Rightarrow> ([], []))"

definition process_single_paper :: "'w env \<Rightarrow> string \<Rightarrow> paper_data \<Rightarrow> paper_summary option" where
  \<comment> \<open>\<^verbatim>\<open>PaperProcessor._process_single_paper\<close>. On records of this schema nothing in the
      \<^verbatim>\<open>try\<close> block raises.\<close>
  "process_single_paper env pmid paper =
     (let article_data = article_of paper
      in if article_falsy article_data then None
         else
           (let title = (case ArticleTitle article_data of Some t \<Rightarrow> t | None \<Rightarrow> ''Unknown Title'');
                pub_date = extract_publication_date article_data;
                email = extract_corresponding_email env paper;
                (authors, companies) = collect_non_academic article_data
            in if authors \<noteq> []
               then Some
                 \<lparr>PubmedID = pmid,
                  Title = title,
                  Publication_Date = pub_date,
                  non_academic_authors = str_join ''; '' (set_order env authors),
                  company_affiliations = str_join ''; '' (set_order env companies),
                  corresponding_email =
                    (case email of
                       Some e \<Rightarrow> if e \<noteq> [] then e else ''Not available''
                     | None \<Rightarrow> ''Not available'')\<rparr>
               else None))"

fun papers_loop ::
  "'w env \<Rightarrow> string list \<Rightarrow> paper_summary list \<Rightarrow> 'w \<Rightarrow> paper_summary list \<times> 'w" where
  \<comment> \<open>The loop of \<^verbatim>\<open>process_papers\<close> over the identifiers still to process.\<close>
  "papers_loop env [] processed_papers w = (processed_papers, w)"
| "papers_loop env (pmid # rest) processed_papers w =
     (let (paper, w') = fetch_paper_details env w pmid
      in if paper_falsy paper then papers_loop env rest processed_papers w'
         else
           (case process_single_paper env pmid paper of
              Some processed_paper \<Rightarrow>
                (if non_academic_authors processed_paper \<noteq> []
                 then papers_loop env rest (processed_papers @ [processed_paper]) w'
                 else papers_loop env rest processed_papers w')
            | None \<Rightarrow> papers_loop env rest processed_papers w'))"

definition process_papers ::
  "'w env \<Rightarrow> 'w \<Rightarrow> string \<Rightarrow> int \<Rightarrow> (py_exception + paper_summary list) \<times> 'w" where
  \<comment> \<open>\<^verbatim>\<open>PaperProcessor.process_papers\<close>; an exception of the search propagates.\<close>
  "process_papers env w query max_results =
     (case search_papers env w query max_results of
        (Inl e, w') \<Rightarrow> (Inl e, w')
      | (Inr pmids, w') \<Rightarrow>
          (let (processed_papers, w'') = papers_loop env pmids [] w'
           in (Inr processed_papers, w'')))"

subsection \<open>The CSV writer\<close>

text \<open>
  \<^verbatim>\<open>csv.DictWriter\<close> with its default dialect: fields separated by a comma, a field
  quoted when it holds a comma, a double quote, a carriage return or a line feed, a
  double quote inside it doubled, each row ended by carriage return and line feed; a
  row of one empty field is written as two double quotes.
\<close>

definition csv_special :: "char \<Rightarrow> bool" where
  "csv_special c = (c = CHR '','' \<or> c = CHR 0x22 \<or> c = CHR 0x0D \<or> c = CHR 0x0A)"

definition csv_field :: "string \<Rightarrow> string" where
  "csv_field f =
     (if list_ex csv_special f
      then [CHR 0x22] @ concat (map (\<lambda>c. if c = CHR 0x22 then [c, c] else [c]) f) @ [CHR 0x22]
      else f)"

definition csv_writerow :: "string list \<Rightarrow> string" where
  "csv_writerow row =
     (if row = [[]] then [CHR 0x22, CHR 0x22] else str_join '','' (map csv_field row))
     @ [CHR 0x0D, CHR 0x0A]"

definition fieldnames :: "string list" where
  "fieldnames =
     [''PubmedID'', ''Title'', ''Publication Date'', ''Non-academic Author(s)'',
      ''Company Affiliation(s)'', ''Corresponding Author Email'']"

definition row_of :: "paper_summary \<Rightarrow> string list" where
  \<comment> \<open>The values of the dictionary passed to \<^verbatim>\<open>writer.writerow\<close>, in the order of
      \<open>fieldnames\<close>.\<close>
  "row_of paper =
     [PubmedID paper, Title paper, Publication_Date paper, non_academic_authors paper,
      company_affiliations paper, corresponding_email paper]"

fun write_rows :: "paper_summary list \<Rightarrow> string \<Rightarrow> string" where
  \<comment> \<open>The loop writing the data rows; the state is the text written so far.\<close>
  "write_rows [] output = output"
| "write_rows (paper # rest) output = write_rows rest (output @ csv_writerow (row_of paper))"

definition generate_csv :: "paper_summary list \<Rightarrow> string" where
  \<comment> \<open>\<^verbatim>\<open>PaperProcessor.generate_csv\<close>\<close>
  "generate_csv processed_papers =
     (if processed_papers = [] then ''No papers with non-academic affiliations found.''
      else write_rows processed_papers (csv_writerow fieldnames))"

section \<open>Vocabulary of the properties\<close>

definition paper_authors :: "paper_data \<Rightarrow> author list" where
  \<comment> \<open>The author entries of a record, in list order; none when there is no author list.\<close>
  "paper_authors paper =
     (case AuthorList (article_of paper) of Some author_list \<Rightarrow> author_list | None \<Rightarrow> [])"

definition author_affiliations :: "author \<Rightarrow> string list" where
  \<comment> \<open>The affiliation strings of an author entry, in list order, as the classifier
      receives them: the empty string for an entry without the key.\<close>
  "author_affiliations a =
     (case AffiliationInfo a of
        Some infos \<Rightarrow> map (\<lambda>info. case Affiliation info of Some s \<Rightarrow> s | None \<Rightarrow> []) infos
      | None \<Rightarrow> [])"

definition recorded :: "string \<Rightarrow> bool" where
  \<comment> \<open>The classifier gives the affiliation as non-academic with a company name that is a
      non-empty string: the test \<^verbatim>\<open>is_non_academic and company_name\<close>.\<close>
  "recorded affiliation =
     (fst (is_non_academic_affiliation affiliation) \<and>
      snd (is_non_academic_affiliation affiliation) \<noteq> None \<and>
      snd (is_non_academic_affiliation affiliation) \<noteq> Some [])"

definition pub_date_of :: "article \<Rightarrow> pub_date option" where
  \<comment> \<open>\<^verbatim>\<open>article_data["Journal"]["JournalIssue"]["PubDate"]\<close> when all three keys are there.\<close>
  "pub_date_of a =
     (case Journal a of
        None \<Rightarrow> None
      | Some j \<Rightarrow> (case JournalIssue j of None \<Rightarrow> None | Some ji \<Rightarrow> PubDate ji))"

fun fetch_trace :: "'w env \<Rightarrow> 'w \<Rightarrow> string list \<Rightarrow> paper_data list" where
  \<comment> \<open>The records that \<^verbatim>\<open>fetch_paper_details\<close> gives for a list of identifiers, fetched one
      after the other from the state \<open>w\<close> on.\<close>
  "fetch_trace env w [] = []"
| "fetch_trace env w (pmid # rest) =
     (let (paper, w') = fetch_paper_details env w pmid in paper # fetch_trace env w' rest)"

definition qualifying :: "'w env \<Rightarrow> string \<Rightarrow> paper_data \<Rightarrow> paper_summary option" where
  \<comment> \<open>The summary that an identifier with its fetched record adds to the result: none for
      an empty record, none when the record gives no summary, none when the joined author
      names of the summary are the empty string.\<close>
  "qualifying env pmid paper =
     (if paper_falsy paper then None
      else case process_single_paper env pmid paper of
             None \<Rightarrow> None
           | Some p \<Rightarrow> if non_academic_authors p \<noteq> [] then Some p else None)"

subsection \<open>Reading a CSV text\<close>

text \<open>
  What the rows of a CSV text are: the scan of a reader for the same dialect, with fields
  separated by commas, a row ended by a carriage return, a line feed or both, a field in
  double quotes holding any character, and a double quote in it written twice.
\<close>

datatype csv_state = RowStart | FieldStart | Unquoted | Quoted | QuoteSeen | AfterCR

datatype csv_action =
    Add csv_state \<comment> \<open>the character belongs to the field\<close>
  | Skip csv_state \<comment> \<open>the character is dropped\<close>
  | EndField \<comment> \<open>the field is complete\<close>
  | EndRow csv_state \<comment> \<open>the field and the row are complete\<close>
  | Blank csv_state \<comment> \<open>a line with nothing on it: a row of no fields\<close>

definition unquoted_step :: "char \<Rightarrow> csv_action" where
  "unquoted_step c =
     (if c = CHR '','' then EndField
      else if c = CHR 0x0D then EndRow AfterCR
      else if c = CHR 0x0A then EndRow RowStart
      else Add Unquoted)"

definition row_start_step :: "char \<Rightarrow> csv_action" where
  "row_start_step c =
     (if c = CHR 0x0D then Blank AfterCR
      else if c = CHR 0x0A then Blank RowStart
      else if c = CHR 0x22 then Skip Quoted
      else unquoted_step c)"

definition csv_step :: "csv_state \<Rightarrow> char \<Rightarrow> csv_action" where
  "csv_step st c =
     (case st of
        Quoted \<Rightarrow> if c = CHR 0x22 then Skip QuoteSeen else Add Quoted
      | QuoteSeen \<Rightarrow> if c = CHR 0x22 then Add Quoted else unquoted_step c
      | Unquoted \<Rightarrow> unquoted_step c
      | FieldStart \<Rightarrow> if c = CHR 0x22 then Skip Quoted else unquoted_step c
      | RowStart \<Rightarrow> row_start_step c
      | AfterCR \<Rightarrow> if c = CHR 0x0A then Skip RowStart else row_start_step c)"

fun csv_scan :: "csv_state \<Rightarrow> string \<Rightarrow> string list \<Rightarrow> string \<Rightarrow> string list list" where
  \<comment> \<open>The state, the field read so far (reversed), the fields of the row read so far
      (last first), and the text still to read.\<close>
  "csv_scan st fld row [] =
     (if st = RowStart \<or> st = AfterCR then [] else [rev (rev fld # row)])"
| "csv_scan st fld row (c # cs) =
     (case csv_step st c of
        Add st' \<Rightarrow> csv_scan st' (c # fld) row cs
      | Skip st' \<Rightarrow> csv_scan st' fld row cs
      | EndField \<Rightarrow> csv_scan FieldStart [] (rev fld # row) cs
      | EndRow st' \<Rightarrow> rev (rev fld # row) # csv_scan st' [] [] cs
      | Blank st' \<Rightarrow> [] # csv_scan st' [] [] cs)"

definition csv_escape :: "string \<Rightarrow> string" where
  \<comment> \<open>Every double quote written twice: the inside of a quoted field.\<close>
  "csv_escape f = concat (map (\<lambda>c. if c = CHR 0x22 then [c, c] else [c]) f)"

definition csv_rows :: "string \<Rightarrow> string list list" where
  "csv_rows text = csv_scan RowStart [] [] text"

section \<open>Test data\<close>

definition one_author_paper :: "string \<Rightarrow> string \<Rightarrow> string \<Rightarrow> pub_date \<Rightarrow> string \<Rightarrow> paper_data" where
  \<comment> \<open>A record with a title, a publication date and one author with one affiliation, as in
      the fixtures of test\_paper\_processor.py.\<close>
  "one_author_paper title last_name fore_name date affiliation =
     \<lparr>MedlineCitation = Some
        \<lparr>Article = Some
           \<lparr>ArticleTitle = Some title,
            Journal = Some \<lparr>JournalIssue = Some \<lparr>PubDate = Some date\<rparr>\<rparr>,
            AuthorList = Some
              [\<lparr>LastName = Some last_name, ForeName = Some fore_name, Initials = None,
                CollectiveName = None,
                AffiliationInfo = Some [\<lparr>Affiliation = Some affiliation\<rparr>]\<rparr>],
            article_other_keys = False\<rparr>\<rparr>,
      paper_other_keys = True\<rparr>"

definition year_only :: "string \<Rightarrow> pub_date" where
  "year_only y = \<lparr>Year = Some y, Month = None, Day = None, MedlineDate = None\<rparr>"

definition medline_only :: "string \<Rightarrow> pub_date" where
  "medline_only d = \<lparr>Year = None, Month = None, Day = None, MedlineDate = Some d\<rparr>"

definition article_dated :: "pub_date \<Rightarrow> article" where
  "article_dated d =
     \<lparr>ArticleTitle = None, Journal = Some \<lparr>JournalIssue = Some \<lparr>PubDate = Some d\<rparr>\<rparr>,
      AuthorList = None, article_other_keys = False\<rparr>"

definition paper_1 :: paper_data where
  "paper_1 =
     one_author_paper ''Test Paper 1'' ''Smith'' ''John'' (year_only ''2023'')
       ''Pfizer Inc., New York, NY, USA''"

definition paper_2 :: paper_data where
  "paper_2 =
     one_author_paper ''Test Paper 2'' ''Johnson'' ''Alice'' (year_only ''2022'')
       ''Harvard University, Boston, MA, USA''"

definition blank_label_affiliation :: string where
  \<comment> \<open>Fifty spaces, then a company name.\<close>
  "blank_label_affiliation = replicate 50 CHR '' '' @ ''Pfizer Inc''"

definition paper_3 :: paper_data where
  "paper_3 =
     one_author_paper ''Test Paper 3'' ''Smith'' ''John'' (year_only ''2023'')
       blank_label_affiliation"

definition test_env :: "nat env" where
  \<comment> \<open>The search gives the identifiers 12345 and 67890; the fetch fails for 12345 and gives
      \<open>paper_1\<close> for any other identifier; the state counts the fetches.\<close>
  "test_env =
     \<lparr>esearch = (\<lambda>w query max_results. (Inr [''12345'', ''67890''], w)),
      efetch = (\<lambda>w pmid.
         (if pmid = ''12345'' then Inl (EntrezError ''HTTP Error 500'') else Inr [paper_1],
          Suc w)),
      extract_corresponding_email = (\<lambda>paper. None),
      set_order = remdups\<rparr>"

section \<open>Facts about the string functions\<close>


lemma str_startswith_iff: "str_startswith k s \<longleftrightarrow> (\<exists>q. s = k @ q)"
  by (induction k s rule: str_startswith.induct) auto

lemma str_in_iff: "str_in k s \<longleftrightarrow> (\<exists>p q. s = p @ k @ q)"
proof (induction s)
  case Nil
  then show ?case by simp
next
  case (Cons c cs)
  show ?case
  proof
    assume "str_in k (c # cs)"
    then consider "str_startswith k (c # cs)" | "str_in k cs" by auto
    then show "\<exists>p q. c # cs = p @ k @ q"
    proof cases
      case 1
      then obtain q where "c # cs = k @ q" using str_startswith_iff by blast
      then have "c # cs = [] @ k @ q" by simp
      then show ?thesis by blast
    next
      case 2
      then obtain p q where "cs = p @ k @ q" using Cons.IH by blast
      then have "c # cs = (c # p) @ k @ q" by simp
      then show ?thesis by blast
    qed
  next
    assume "\<exists>p q. c # cs = p @ k @ q"
    then obtain p q where pq: "c # cs = p @ k @ q" by blast
    show "str_in k (c # cs)"
    proof (cases p)
      case Nil
      with pq have "str_startswith k (c # cs)" using str_startswith_iff by auto
      then show ?thesis by simp
    next
      case (Cons a p')
      with pq have "cs = p' @ k @ q" by simp
      then have "str_in k cs" using Cons.IH by blast
      then show ?thesis by simp
    qed
  qed
qed

lemma str_in_single: "str_in [c] s \<longleftrightarrow> c \<in> set s"
  by (induction s) auto

lemma company_loop_None:
  "company_loop kws l a = None \<longleftrightarrow> (is_academic l \<or> \<not> list_ex (\<lambda>k. str_in k l) kws)"
  by (induction kws) auto

lemma company_loop_Some:
  "company_loop kws l a = Some r \<Longrightarrow> r = (True, Some (extract_company_name a))"
  by (induction kws) (auto split: if_splits)

lemma classify_cases:
  "is_non_academic_affiliation a =
     (if \<not> is_academic (str_lower a) \<and>
         (list_ex (\<lambda>k. str_in k (str_lower a)) company_keywords \<or> CHR '','' \<in> set a)
      then (True, Some (extract_company_name a)) else (False, None))"
proof (cases "company_loop company_keywords (str_lower a) a")
  case None
  then show ?thesis
    using company_loop_None [of company_keywords "str_lower a" a]
    by (auto simp: is_non_academic_affiliation_def is_academic_def str_in_single)
next
  case (Some r)
  then have "r = (True, Some (extract_company_name a))" by (rule company_loop_Some)
  moreover have "\<not> is_academic (str_lower a) \<and> list_ex (\<lambda>k. str_in k (str_lower a)) company_keywords"
    using Some company_loop_None [of company_keywords "str_lower a" a] by auto
  ultimately show ?thesis using Some
    by (simp add: is_non_academic_affiliation_def)
qed


lemma length_str_strip: "length (str_strip s) \<le> length s"
proof -
  have "length (dropWhile isspace (rev (dropWhile isspace s))) \<le> length (rev (dropWhile isspace s))"
    by (rule length_dropWhile_le)
  also have "\<dots> \<le> length s" by (simp add: length_dropWhile_le)
  finally show ?thesis by (simp add: str_strip_def)
qed

lemma last_dropWhile_keep: "dropWhile P xs \<noteq> [] \<Longrightarrow> last (dropWhile P xs) = last xs"
  by (induction xs) (auto split: if_splits)

lemma str_strip_ends:
  assumes "str_strip s \<noteq> []"
  shows "\<not> isspace (hd (str_strip s)) \<and> \<not> isspace (last (str_strip s))"
proof -
  let ?t = "dropWhile isspace s"
  let ?u = "dropWhile isspace (rev ?t)"
  have u: "?u \<noteq> []" using assms by (simp add: str_strip_def)
  then have t: "?t \<noteq> []" by (cases "?t") auto
  have "\<not> isspace (hd ?u)" using u by (rule hd_dropWhile)
  then have l: "\<not> isspace (last (str_strip s))" using u by (simp add: str_strip_def last_rev)
  have "last ?u = last (rev ?t)" using u by (rule last_dropWhile_keep)
  also have "\<dots> = hd ?t" using t by (simp add: last_rev)
  finally have "hd (str_strip s) = hd ?t" using u by (simp add: str_strip_def hd_rev)
  moreover have "\<not> isspace (hd ?t)" using t by (rule hd_dropWhile)
  ultimately show ?thesis using l by simp
qed

lemma str_strip_decomp:
  "\<exists>l r. s = l @ str_strip s @ r \<and> (\<forall>c\<in>set l. isspace c) \<and> (\<forall>c\<in>set r. isspace c)"
proof -
  let ?l = "takeWhile isspace s"
  let ?t = "dropWhile isspace s"
  let ?r = "rev (takeWhile isspace (rev ?t))"
  have "rev (takeWhile isspace (rev ?t) @ dropWhile isspace (rev ?t)) = rev (rev ?t)"
    by (simp only: takeWhile_dropWhile_id)
  then have "?t = str_strip s @ ?r" by (simp only: rev_append rev_rev_ident str_strip_def)
  then have "s = ?l @ str_strip s @ ?r" by (metis takeWhile_dropWhile_id)
  moreover have "\<forall>c\<in>set ?l. isspace c" by (auto dest: set_takeWhileD)
  moreover have "\<forall>c\<in>set ?r. isspace c" by (auto dest: set_takeWhileD)
  ultimately show ?thesis by blast
qed

lemma split_first_decomp: "c \<notin> set pre \<Longrightarrow> split_first c (pre @ c # post) = pre"
  by (induction pre) (auto simp: split_first_def)

lemma split_first_no_sep: "c \<notin> set s \<Longrightarrow> split_first c s = s"
  by (auto simp: split_first_def)

lemma extract_company_name_comma:
  assumes "CHR '','' \<notin> set pre"
  shows "extract_company_name (pre @ CHR '','' # post) =
           (if 3 < length (str_strip pre) \<and> length (str_strip pre) < 50 then str_strip pre
            else str_strip (take 50 (pre @ CHR '','' # post)))"
  using assms by (simp add: extract_company_name_def str_in_single split_first_decomp Let_def)

lemma extract_company_name_no_comma:
  "CHR '','' \<notin> set a \<Longrightarrow> extract_company_name a = str_strip (take 50 a)"
  by (simp add: extract_company_name_def str_in_single)

lemma extract_company_name_bounds:
  "length (extract_company_name a) \<le> 50 \<and>
   (extract_company_name a \<noteq> [] \<longrightarrow>
      \<not> isspace (hd (extract_company_name a)) \<and> \<not> isspace (last (extract_company_name a)))"
proof -
  have "length (str_strip (take 50 a)) \<le> length (take 50 a)" by (rule length_str_strip)
  then have "length (str_strip (take 50 a)) \<le> 50" by simp
  then show ?thesis
    by (auto simp: extract_company_name_def Let_def dest: str_strip_ends)
qed

section \<open>The classifier\<close>

text \<open>
  C2: an affiliation whose lower-cased form contains a keyword of the company list and no
  keyword of the academic list is classified as non-academic.
\<close>

theorem classify_corporate_keyword:
  assumes "k \<in> set company_keywords"
    and "str_in k (str_lower a)"
    and "\<forall>k'\<in>set academic_keywords. \<not> str_in k' (str_lower a)"
  shows "fst (is_non_academic_affiliation a) = True"
proof -
  have "list_ex (\<lambda>k. str_in k (str_lower a)) company_keywords"
    using assms(1,2) by (auto simp: list_ex_iff)
  moreover have "\<not> is_academic (str_lower a)"
    using assms(3) by (simp add: is_academic_def list_ex_iff)
  ultimately show ?thesis by (simp add: classify_cases)
qed

theorem classify_corporate_keyword_witness:
  "''inc'' \<in> set company_keywords \<and>
   str_in ''inc'' (str_lower ''Pfizer Inc., New York, NY, USA'') \<and>
   \<not> is_academic (str_lower ''Pfizer Inc., New York, NY, USA'') \<and>
   fst (is_non_academic_affiliation ''Pfizer Inc., New York, NY, USA'') = True"
proof -
  have h1: "''inc'' \<in> set company_keywords" by code_simp
  have h2: "str_in ''inc'' (str_lower ''Pfizer Inc., New York, NY, USA'')" by code_simp
  have na: "\<not> is_academic (str_lower ''Pfizer Inc., New York, NY, USA'')" by code_simp
  then have h3:
    "\<forall>k'\<in>set academic_keywords. \<not> str_in k' (str_lower ''Pfizer Inc., New York, NY, USA'')"
    by (simp add: is_academic_def list_ex_iff)
  show ?thesis using classify_corporate_keyword [OF h1 h2 h3] h1 h2 na by blast
qed

text \<open>
  C3: an affiliation whose lower-cased form contains a keyword of the academic list is
  classified as academic, with no company name, whatever company keywords it contains too.
\<close>

theorem classify_academic_keyword:
  assumes "k \<in> set academic_keywords"
    and "str_in k (str_lower a)"
  shows "is_non_academic_affiliation a = (False, None)"
proof -
  have "is_academic (str_lower a)"
    using assms by (auto simp: is_academic_def list_ex_iff)
  then show ?thesis by (simp add: classify_cases)
qed

theorem classify_academic_keyword_witness:
  "''institute'' \<in> set academic_keywords \<and>
   str_in ''institute'' (str_lower ''Pfizer Institute of Pharmacology, Inc.'') \<and>
   str_in ''inc'' (str_lower ''Pfizer Institute of Pharmacology, Inc.'') \<and>
   is_non_academic_affiliation ''Pfizer Institute of Pharmacology, Inc.'' = (False, None)"
proof -
  have h1: "''institute'' \<in> set academic_keywords" by code_simp
  have h2: "str_in ''institute'' (str_lower ''Pfizer Institute of Pharmacology, Inc.'')" by code_simp
  have h3: "str_in ''inc'' (str_lower ''Pfizer Institute of Pharmacology, Inc.'')" by code_simp
  show ?thesis using classify_academic_keyword [OF h1 h2] h1 h2 h3 by blast
qed

text \<open>
  C5: when the keyword loop returns nothing, an affiliation with no academic keyword and a
  comma is classified as non-academic; with no academic keyword, no company keyword and no
  comma it is classified as academic.
\<close>

theorem comma_fallback:
  "(company_loop company_keywords (str_lower a) a = None \<and>
    (\<forall>k\<in>set academic_keywords. \<not> str_in k (str_lower a)) \<and>
    CHR '','' \<in> set a
      \<longrightarrow> fst (is_non_academic_affiliation a) = True) \<and>
   ((\<forall>k\<in>set academic_keywords. \<not> str_in k (str_lower a)) \<and>
    (\<forall>k\<in>set company_keywords. \<not> str_in k (str_lower a)) \<and>
    CHR '','' \<notin> set a
      \<longrightarrow> fst (is_non_academic_affiliation a) = False)"
  by (simp add: classify_cases is_academic_def list_ex_iff)

theorem comma_fallback_witness:
  "company_loop company_keywords (str_lower ''Roche, Basel'') ''Roche, Basel'' = None \<and>
   \<not> is_academic (str_lower ''Roche, Basel'') \<and>
   CHR '','' \<in> set ''Roche, Basel'' \<and>
   fst (is_non_academic_affiliation ''Roche, Basel'') = True \<and>
   \<not> is_academic (str_lower ''Roche Basel'') \<and>
   \<not> list_ex (\<lambda>k. str_in k (str_lower ''Roche Basel'')) company_keywords \<and>
   CHR '','' \<notin> set ''Roche Basel'' \<and>
   fst (is_non_academic_affiliation ''Roche Basel'') = False"
proof -
  have h1: "company_loop company_keywords (str_lower ''Roche, Basel'') ''Roche, Basel'' = None"
    by code_simp
  have n2: "\<not> is_academic (str_lower ''Roche, Basel'')" by code_simp
  then have h2: "\<forall>k\<in>set academic_keywords. \<not> str_in k (str_lower ''Roche, Basel'')"
    by (simp add: is_academic_def list_ex_iff)
  have h3: "CHR '','' \<in> set ''Roche, Basel''" by simp
  have n4: "\<not> is_academic (str_lower ''Roche Basel'')" by code_simp
  then have h4: "\<forall>k\<in>set academic_keywords. \<not> str_in k (str_lower ''Roche Basel'')"
    by (simp add: is_academic_def list_ex_iff)
  have n5: "\<not> list_ex (\<lambda>k. str_in k (str_lower ''Roche Basel'')) company_keywords" by code_simp
  then have h5: "\<forall>k\<in>set company_keywords. \<not> str_in k (str_lower ''Roche Basel'')"
    by (simp add: list_ex_iff)
  have h6: "CHR '','' \<notin> set ''Roche Basel''" by simp
  show ?thesis
    using comma_fallback [of "''Roche, Basel''"] comma_fallback [of "''Roche Basel''"]
      h1 h2 h3 h4 h5 h6 n2 n4 n5 by blast
qed

lemma classify_label:
  "fst (is_non_academic_affiliation a) \<Longrightarrow>
   snd (is_non_academic_affiliation a) = Some (extract_company_name a)"
  by (simp add: classify_cases split: if_splits)

text \<open>
  C4: for an affiliation classified as non-academic, the company name is the part before
  the first comma, stripped, when that has more than 3 and fewer than 50 characters, and
  otherwise (no comma, or a length out of that range) the first 50 characters of the
  affiliation, stripped; "Pfizer Inc., New York, NY, USA" gives (True, "Pfizer Inc.").
\<close>

theorem company_label_derivation:
  "(fst (is_non_academic_affiliation a) \<longrightarrow>
      (\<forall>pre post. a = pre @ CHR '','' # post \<and> CHR '','' \<notin> set pre \<longrightarrow>
         snd (is_non_academic_affiliation a) =
           Some (if 3 < length (str_strip pre) \<and> length (str_strip pre) < 50
                 then str_strip pre else str_strip (take 50 a))) \<and>
      (CHR '','' \<notin> set a \<longrightarrow>
         snd (is_non_academic_affiliation a) = Some (str_strip (take 50 a)))) \<and>
   is_non_academic_affiliation ''Pfizer Inc., New York, NY, USA'' = (True, Some ''Pfizer Inc.'')"
proof (intro conjI impI allI)
  fix pre post
  assume c: "fst (is_non_academic_affiliation a)"
    and d: "a = pre @ CHR '','' # post \<and> CHR '','' \<notin> set pre"
  have "extract_company_name a =
          (if 3 < length (str_strip pre) \<and> length (str_strip pre) < 50 then str_strip pre
           else str_strip (take 50 a))"
    using d extract_company_name_comma [of pre post] by simp
  then show "snd (is_non_academic_affiliation a) =
           Some (if 3 < length (str_strip pre) \<and> length (str_strip pre) < 50
                 then str_strip pre else str_strip (take 50 a))"
    using classify_label [OF c] by simp
next
  assume c: "fst (is_non_academic_affiliation a)" and n: "CHR '','' \<notin> set a"
  show "snd (is_non_academic_affiliation a) = Some (str_strip (take 50 a))"
    using classify_label [OF c] extract_company_name_no_comma [OF n] by simp
next
  show "is_non_academic_affiliation ''Pfizer Inc., New York, NY, USA'' = (True, Some ''Pfizer Inc.'')"
    by code_simp
qed

theorem company_label_derivation_witness:
  "fst (is_non_academic_affiliation ''  Acme Research , Basel'') \<and>
   ''  Acme Research , Basel'' = ''  Acme Research '' @ CHR '','' # '' Basel'' \<and>
   CHR '','' \<notin> set ''  Acme Research '' \<and>
   snd (is_non_academic_affiliation ''  Acme Research , Basel'') = Some ''Acme Research'' \<and>
   fst (is_non_academic_affiliation ''Acme GmbH'') \<and> CHR '','' \<notin> set ''Acme GmbH'' \<and>
   snd (is_non_academic_affiliation ''Acme GmbH'') = Some ''Acme GmbH''"
proof -
  have h1: "fst (is_non_academic_affiliation ''  Acme Research , Basel'')" by code_simp
  have h2: "''  Acme Research , Basel'' = ''  Acme Research '' @ CHR '','' # '' Basel''" by simp
  have h3: "CHR '','' \<notin> set ''  Acme Research ''" by simp
  have h4: "fst (is_non_academic_affiliation ''Acme GmbH'')" by code_simp
  have h5: "CHR '','' \<notin> set ''Acme GmbH''" by simp
  have e1: "(if 3 < length (str_strip ''  Acme Research '') \<and> length (str_strip ''  Acme Research '') < 50
             then str_strip ''  Acme Research '' else str_strip (take 50 ''  Acme Research , Basel''))
            = ''Acme Research''" by code_simp
  have e2: "str_strip (take 50 ''Acme GmbH'') = ''Acme GmbH''" by code_simp
  note t1 = company_label_derivation [of "''  Acme Research , Basel''", THEN conjunct1, rule_format, OF h1]
  note t2 = company_label_derivation [of "''Acme GmbH''", THEN conjunct1, rule_format, OF h4]
  have a: "snd (is_non_academic_affiliation ''  Acme Research , Basel'') = Some ''Acme Research''"
    using t1 [THEN conjunct1, rule_format, OF conjI [OF h2 h3]] e1 by (simp only:)
  have b: "snd (is_non_academic_affiliation ''Acme GmbH'') = Some ''Acme GmbH''"
    using t2 [THEN conjunct2, rule_format, OF h5] e2 by (simp only:)
  show ?thesis by (intro conjI a b h1 h2 h3 h4 h5)
qed

section \<open>The aggregation of one record\<close>

lemma recorded_iff: "recorded s \<longleftrightarrow> fst (is_non_academic_affiliation s) \<and> extract_company_name s \<noteq> []"
  by (simp add: recorded_def classify_cases)

lemma affiliation_loop_step:
  "affiliation_loop n (info # rest) (as, cs) =
     (let s = (case Affiliation info of Some s \<Rightarrow> s | None \<Rightarrow> [])
      in if recorded s
         then affiliation_loop n rest
                (as @ [n],
                 if extract_company_name s \<in> set cs then cs else cs @ [extract_company_name s])
         else affiliation_loop n rest (as, cs))"
  by (simp add: recorded_iff classify_cases Let_def)

lemma affiliation_loop_authors:
  "fst (affiliation_loop n infos (as, cs)) =
     as @ replicate (length (filter recorded
            (map (\<lambda>info. case Affiliation info of Some s \<Rightarrow> s | None \<Rightarrow> []) infos))) n"
proof (induction infos arbitrary: as cs)
  case Nil
  then show ?case by simp
next
  case (Cons info rest)
  show ?case
    by (simp only: affiliation_loop_step Let_def Cons.IH split: if_splits)
       (simp add: replicate_app_Cons_same)
qed

lemma affiliation_loop_companies:
  "set (snd (affiliation_loop n infos (as, cs))) =
     set cs \<union> extract_company_name `
       {s \<in> set (map (\<lambda>info. case Affiliation info of Some s \<Rightarrow> s | None \<Rightarrow> []) infos). recorded s}"
proof (induction infos arbitrary: as cs)
  case Nil
  then show ?case by simp
next
  case (Cons info rest)
  show ?case
    by (simp only: affiliation_loop_step Let_def Cons.IH split: if_splits) auto
qed

lemma author_loop_authors:
  "fst (author_loop aus (as, cs)) =
     as @ concat (map (\<lambda>au. replicate (length (filter recorded (author_affiliations au)))
                               (format_author_name au)) aus)"
proof (induction aus arbitrary: as cs)
  case Nil
  then show ?case by simp
next
  case (Cons au rest)
  show ?case
  proof (cases "AffiliationInfo au")
    case None
    then show ?thesis using Cons.IH [of as cs] by (simp add: author_affiliations_def)
  next
    case (Some infos)
    obtain as' cs' where r: "affiliation_loop (format_author_name au) infos (as, cs) = (as', cs')"
      by (cases "affiliation_loop (format_author_name au) infos (as, cs)")
    have "as' = as @ replicate (length (filter recorded (author_affiliations au))) (format_author_name au)"
      using affiliation_loop_authors [of "format_author_name au" infos as cs] r Some
      by (simp add: author_affiliations_def)
    then show ?thesis using Cons.IH [of as' cs'] r Some by simp
  qed
qed

lemma author_loop_companies:
  "set (snd (author_loop aus (as, cs))) =
     set cs \<union> (\<Union>au\<in>set aus. extract_company_name ` {s \<in> set (author_affiliations au). recorded s})"
proof (induction aus arbitrary: as cs)
  case Nil
  then show ?case by simp
next
  case (Cons au rest)
  show ?case
  proof (cases "AffiliationInfo au")
    case None
    then show ?thesis using Cons.IH [of as cs] by (simp add: author_affiliations_def)
  next
    case (Some infos)
    obtain as' cs' where r: "affiliation_loop (format_author_name au) infos (as, cs) = (as', cs')"
      by (cases "affiliation_loop (format_author_name au) infos (as, cs)")
    have "set cs' = set cs \<union> extract_company_name ` {s \<in> set (author_affiliations au). recorded s}"
      using affiliation_loop_companies [of "format_author_name au" infos as cs] r Some
      by (simp add: author_affiliations_def)
    then show ?thesis using Cons.IH [of as' cs'] r Some by auto
  qed
qed

lemma collect_authors:
  "fst (collect_non_academic (article_of paper)) =
     concat (map (\<lambda>au. replicate (length (filter recorded (author_affiliations au)))
                          (format_author_name au)) (paper_authors paper))"
  by (cases "AuthorList (article_of paper)")
     (simp_all add: collect_non_academic_def paper_authors_def author_loop_authors)

lemma collect_companies:
  "set (snd (collect_non_academic (article_of paper))) =
     (\<Union>au\<in>set (paper_authors paper).
        extract_company_name ` {s \<in> set (author_affiliations au). recorded s})"
  by (cases "AuthorList (article_of paper)")
     (simp_all add: collect_non_academic_def paper_authors_def author_loop_companies)

lemma collect_authors_empty:
  "fst (collect_non_academic (article_of paper)) = [] \<longleftrightarrow>
     \<not> (\<exists>au\<in>set (paper_authors paper). \<exists>s\<in>set (author_affiliations au). recorded s)"
  by (auto simp: collect_authors filter_empty_conv)

lemma article_falsy_no_authors: "article_falsy (article_of paper) \<Longrightarrow> paper_authors paper = []"
  by (simp add: article_falsy_def paper_authors_def)

lemma process_single_paper_None:
  "process_single_paper env pmid paper = None \<longleftrightarrow>
     \<not> (\<exists>au\<in>set (paper_authors paper). \<exists>s\<in>set (author_affiliations au). recorded s)"
proof (cases "article_falsy (article_of paper)")
  case True
  then show ?thesis
    using article_falsy_no_authors [OF True] by (simp add: process_single_paper_def)
next
  case False
  obtain as cs where c: "collect_non_academic (article_of paper) = (as, cs)"
    by (cases "collect_non_academic (article_of paper)")
  have "as = [] \<longleftrightarrow>
     \<not> (\<exists>au\<in>set (paper_authors paper). \<exists>s\<in>set (author_affiliations au). recorded s)"
    using collect_authors_empty [of paper] c by simp
  then show ?thesis using False c by (simp add: process_single_paper_def Let_def)
qed

lemma process_single_paper_Some:
  assumes "process_single_paper env pmid paper = Some s"
  shows "s = \<lparr>PubmedID = pmid,
              Title = (case ArticleTitle (article_of paper) of Some t \<Rightarrow> t | None \<Rightarrow> ''Unknown Title''),
              Publication_Date = extract_publication_date (article_of paper),
              non_academic_authors =
                str_join ''; '' (set_order env (fst (collect_non_academic (article_of paper)))),
              company_affiliations =
                str_join ''; '' (set_order env (snd (collect_non_academic (article_of paper)))),
              corresponding_email =
                (case extract_corresponding_email env paper of
                   Some e \<Rightarrow> if e \<noteq> [] then e else ''Not available''
                 | None \<Rightarrow> ''Not available'')\<rparr>"
proof -
  obtain as cs where c: "collect_non_academic (article_of paper) = (as, cs)"
    by (cases "collect_non_academic (article_of paper)")
  show ?thesis using assms c
    by (simp add: process_single_paper_def Let_def split: if_splits)
qed

lemma collect_authors_set:
  "set (fst (collect_non_academic (article_of paper))) =
     format_author_name `
       {au \<in> set (paper_authors paper). \<exists>s\<in>set (author_affiliations au). recorded s}"
proof -
  have r: "\<And>au. set (replicate (length (filter recorded (author_affiliations au))) (format_author_name au)) =
           (if \<exists>s\<in>set (author_affiliations au). recorded s then {format_author_name au} else {})"
    by (auto simp: set_replicate_conv_if filter_empty_conv)
  show ?thesis
    unfolding collect_authors set_concat set_map image_image r
    by (auto split: if_splits)
qed

lemma collect_companies_nonempty:
  "c \<in> set (snd (collect_non_academic (article_of paper))) \<Longrightarrow>
   c \<noteq> [] \<and> (\<exists>a. c = extract_company_name a)"
  by (auto simp: collect_companies recorded_iff)

text \<open>
  C1 as stated fails: the only affiliation of \<open>paper_3\<close> is classified as non-academic, its company
  name is the empty string, and the record gives no summary.
\<close>

theorem summary_iff_recorded_counterexample:
  "map author_affiliations (paper_authors paper_3) = [[blank_label_affiliation]] \<and>
   is_non_academic_affiliation blank_label_affiliation = (True, Some []) \<and>
   process_single_paper test_env ''12345'' paper_3 = None"
proof (intro conjI)
  show "map author_affiliations (paper_authors paper_3) = [[blank_label_affiliation]]"
    by code_simp
  show "is_non_academic_affiliation blank_label_affiliation = (True, Some [])"
    by code_simp
  show "process_single_paper test_env ''12345'' paper_3 = None"
    by code_simp
qed

text \<open>
  C1, amended: a record gives a summary if and only if some affiliation of some author is classified
  as non-academic with a non-empty company name; a record whose affiliations are all
  classified as academic gives none.
\<close>

theorem summary_iff_recorded:
  "(process_single_paper env pmid paper \<noteq> None \<longleftrightarrow>
      (\<exists>au\<in>set (paper_authors paper). \<exists>s\<in>set (author_affiliations au). recorded s)) \<and>
   ((\<forall>au\<in>set (paper_authors paper). \<forall>s\<in>set (author_affiliations au).
        \<not> fst (is_non_academic_affiliation s))
      \<longrightarrow> process_single_paper env pmid paper = None)"
proof
  show "process_single_paper env pmid paper \<noteq> None \<longleftrightarrow>
      (\<exists>au\<in>set (paper_authors paper). \<exists>s\<in>set (author_affiliations au). recorded s)"
    by (simp add: process_single_paper_None)
  show "(\<forall>au\<in>set (paper_authors paper). \<forall>s\<in>set (author_affiliations au).
        \<not> fst (is_non_academic_affiliation s))
      \<longrightarrow> process_single_paper env pmid paper = None"
    by (auto simp: process_single_paper_None recorded_def)
qed

theorem summary_iff_recorded_witness:
  "list_all (\<lambda>au. list_all (\<lambda>s. \<not> fst (is_non_academic_affiliation s)) (author_affiliations au))
     (paper_authors paper_2) \<and>
   process_single_paper test_env ''67890'' paper_2 = None \<and>
   list_ex (\<lambda>au. list_ex recorded (author_affiliations au)) (paper_authors paper_1) \<and>
   process_single_paper test_env ''12345'' paper_1 \<noteq> None"
proof -
  have h1: "list_all (\<lambda>au. list_all (\<lambda>s. \<not> fst (is_non_academic_affiliation s)) (author_affiliations au))
     (paper_authors paper_2)" by code_simp
  then have h1': "\<forall>au\<in>set (paper_authors paper_2). \<forall>s\<in>set (author_affiliations au).
        \<not> fst (is_non_academic_affiliation s)"
    by (simp add: list_all_iff)
  have h2: "list_ex (\<lambda>au. list_ex recorded (author_affiliations au)) (paper_authors paper_1)"
    by code_simp
  then have h2': "\<exists>au\<in>set (paper_authors paper_1). \<exists>s\<in>set (author_affiliations au). recorded s"
    by (simp add: list_ex_iff)
  have a: "process_single_paper test_env ''67890'' paper_2 = None"
    using summary_iff_recorded [of test_env "''67890''" paper_2] h1' by (simp only:)
  have b: "process_single_paper test_env ''12345'' paper_1 \<noteq> None"
    using summary_iff_recorded [of test_env "''12345''" paper_1] h2' by (simp only:)
  show ?thesis by (intro conjI h1 a h2 b)
qed

text \<open>
  C9: an affiliation that is not classified as non-academic with a non-empty company name
  leaves both lists as they are; the authors collected are those with such an affiliation and
  the companies collected are the names extracted from such affiliations, so no collected
  company is the empty string; a record whose non-academic affiliations all have the empty
  name gives no summary.
\<close>

theorem empty_label_not_recorded:
  "(\<not> recorded (case Affiliation info of Some s \<Rightarrow> s | None \<Rightarrow> [])
      \<longrightarrow> affiliation_loop n (info # rest) st = affiliation_loop n rest st) \<and>
   set (fst (collect_non_academic (article_of paper))) =
     format_author_name `
       {au \<in> set (paper_authors paper). \<exists>s\<in>set (author_affiliations au). recorded s} \<and>
   set (snd (collect_non_academic (article_of paper))) =
     (\<Union>au\<in>set (paper_authors paper).
        extract_company_name ` {s \<in> set (author_affiliations au). recorded s}) \<and>
   (\<forall>c\<in>set (snd (collect_non_academic (article_of paper))). c \<noteq> []) \<and>
   ((\<forall>au\<in>set (paper_authors paper). \<forall>s\<in>set (author_affiliations au).
        fst (is_non_academic_affiliation s) \<longrightarrow> snd (is_non_academic_affiliation s) = Some [])
      \<longrightarrow> process_single_paper env pmid paper = None)"
proof (intro conjI)
  show "\<not> recorded (case Affiliation info of Some s \<Rightarrow> s | None \<Rightarrow> [])
      \<longrightarrow> affiliation_loop n (info # rest) st = affiliation_loop n rest st"
    by (cases st) (simp add: affiliation_loop_step Let_def del: affiliation_loop.simps)
  show "set (fst (collect_non_academic (article_of paper))) =
     format_author_name `
       {au \<in> set (paper_authors paper). \<exists>s\<in>set (author_affiliations au). recorded s}"
    by (rule collect_authors_set)
  show "set (snd (collect_non_academic (article_of paper))) =
     (\<Union>au\<in>set (paper_authors paper).
        extract_company_name ` {s \<in> set (author_affiliations au). recorded s})"
    by (rule collect_companies)
  show "\<forall>c\<in>set (snd (collect_non_academic (article_of paper))). c \<noteq> []"
    using collect_companies_nonempty by blast
  show "(\<forall>au\<in>set (paper_authors paper). \<forall>s\<in>set (author_affiliations au).
        fst (is_non_academic_affiliation s) \<longrightarrow> snd (is_non_academic_affiliation s) = Some [])
      \<longrightarrow> process_single_paper env pmid paper = None"
    by (auto simp: process_single_paper_None recorded_def)
qed

theorem empty_label_not_recorded_witness:
  "\<not> recorded blank_label_affiliation \<and>
   affiliation_loop ''Smith John'' [\<lparr>Affiliation = Some blank_label_affiliation\<rparr>] ([], []) = ([], []) \<and>
   list_all (\<lambda>au. list_all (\<lambda>s. \<not> fst (is_non_academic_affiliation s) \<or>
                                 snd (is_non_academic_affiliation s) = Some [])
                      (author_affiliations au)) (paper_authors paper_3) \<and>
   process_single_paper test_env ''12345'' paper_3 = None \<and>
   snd (collect_non_academic (article_of paper_1)) = [''Pfizer Inc.''] \<and>
   list_all (\<lambda>c. c \<noteq> []) (snd (collect_non_academic (article_of paper_1)))"
proof -
  note t = empty_label_not_recorded
  have h1: "\<not> recorded blank_label_affiliation" by code_simp
  then have h1': "\<not> recorded (case Affiliation \<lparr>Affiliation = Some blank_label_affiliation\<rparr> of
                      Some s \<Rightarrow> s | None \<Rightarrow> [])" by simp
  have a: "affiliation_loop ''Smith John'' [\<lparr>Affiliation = Some blank_label_affiliation\<rparr>] ([], []) = ([], [])"
    using t [of "\<lparr>Affiliation = Some blank_label_affiliation\<rparr>" "''Smith John''" "[]" "([], [])",
        THEN conjunct1, rule_format, OF h1'] by simp
  have h2: "list_all (\<lambda>au. list_all (\<lambda>s. \<not> fst (is_non_academic_affiliation s) \<or>
                                 snd (is_non_academic_affiliation s) = Some [])
                      (author_affiliations au)) (paper_authors paper_3)" by code_simp
  then have h2': "\<forall>au\<in>set (paper_authors paper_3). \<forall>s\<in>set (author_affiliations au).
        fst (is_non_academic_affiliation s) \<longrightarrow> snd (is_non_academic_affiliation s) = Some []"
    by (auto simp: list_all_iff)
  have b: "process_single_paper test_env ''12345'' paper_3 = None"
    using t [of _ _ _ _ paper_3 test_env "''12345''"] h2' by blast
  have c: "snd (collect_non_academic (article_of paper_1)) = [''Pfizer Inc.'']" by code_simp
  have "\<forall>c\<in>set (snd (collect_non_academic (article_of paper_1))). c \<noteq> []"
    using t [of _ _ _ _ paper_1] by blast
  then have d: "list_all (\<lambda>c. c \<noteq> []) (snd (collect_non_academic (article_of paper_1)))"
    by (simp add: list_all_iff)
  show ?thesis by (intro conjI h1 a h2 b c d)
qed

lemma collect_companies_bounds:
  assumes "c \<in> set (snd (collect_non_academic (article_of paper)))"
  shows "length c \<le> 50 \<and> c \<noteq> [] \<and> \<not> isspace (hd c) \<and> \<not> isspace (last c)"
proof -
  obtain a where "c = extract_company_name a" and "c \<noteq> []"
    using collect_companies_nonempty [OF assms] by blast
  then show ?thesis using extract_company_name_bounds [of a] by simp
qed

text \<open>
  C10: every company name that \<open>extract_company_name\<close> returns has at most 50 characters and,
  when it is not empty, neither starts nor ends with a whitespace character; so has every
  company collected for a record, and every entry of the list that is joined into the
  \<open>company_affiliations\<close> of a summary.
\<close>

theorem company_label_bounds:
  "length (extract_company_name a) \<le> 50 \<and>
   (extract_company_name a \<noteq> [] \<longrightarrow>
      \<not> isspace (hd (extract_company_name a)) \<and> \<not> isspace (last (extract_company_name a))) \<and>
   (\<forall>c\<in>set (snd (collect_non_academic (article_of paper))).
      length c \<le> 50 \<and> \<not> isspace (hd c) \<and> \<not> isspace (last c)) \<and>
   (py_set_order (set_order env) \<and> process_single_paper env pmid paper = Some s \<longrightarrow>
      (\<exists>cs. company_affiliations s = str_join ''; '' cs \<and>
            (\<forall>c\<in>set cs. length c \<le> 50 \<and> \<not> isspace (hd c) \<and> \<not> isspace (last c))))"
proof (intro conjI impI)
  show "length (extract_company_name a) \<le> 50"
    using extract_company_name_bounds [of a] by simp
  show "\<not> isspace (hd (extract_company_name a))" if "extract_company_name a \<noteq> []"
    using that extract_company_name_bounds [of a] by simp
  show "\<not> isspace (last (extract_company_name a))" if "extract_company_name a \<noteq> []"
    using that extract_company_name_bounds [of a] by simp
  show "\<forall>c\<in>set (snd (collect_non_academic (article_of paper))).
      length c \<le> 50 \<and> \<not> isspace (hd c) \<and> \<not> isspace (last c)"
    using collect_companies_bounds by blast
next
  assume h: "py_set_order (set_order env) \<and> process_single_paper env pmid paper = Some s"
  let ?cs = "set_order env (snd (collect_non_academic (article_of paper)))"
  have "company_affiliations s = str_join ''; '' ?cs"
    using process_single_paper_Some [of env pmid paper s] h by simp
  moreover have "set ?cs = set (snd (collect_non_academic (article_of paper)))"
    using h by (simp add: py_set_order_def)
  then have "\<forall>c\<in>set ?cs. length c \<le> 50 \<and> \<not> isspace (hd c) \<and> \<not> isspace (last c)"
    using collect_companies_bounds by blast
  ultimately show "\<exists>cs. company_affiliations s = str_join ''; '' cs \<and>
            (\<forall>c\<in>set cs. length c \<le> 50 \<and> \<not> isspace (hd c) \<and> \<not> isspace (last c))"
    by blast
qed

lemma py_set_order_remdups: "py_set_order remdups"
  by (simp add: py_set_order_def)

theorem company_label_bounds_witness:
  "extract_company_name '' Acme  '' = ''Acme'' \<and>
   length (extract_company_name '' Acme  '') \<le> 50 \<and>
   \<not> isspace (hd (extract_company_name '' Acme  '')) \<and>
   \<not> isspace (last (extract_company_name '' Acme  '')) \<and>
   py_set_order (set_order test_env) \<and>
   process_single_paper test_env ''12345'' paper_1 \<noteq> None \<and>
   company_affiliations (the (process_single_paper test_env ''12345'' paper_1)) = ''Pfizer Inc.'' \<and>
   length (company_affiliations (the (process_single_paper test_env ''12345'' paper_1))) \<le> 50"
proof -
  have e: "extract_company_name '' Acme  '' = ''Acme''" by code_simp
  then have ne: "extract_company_name '' Acme  '' \<noteq> []" by simp
  note t = company_label_bounds [of "'' Acme  ''"]
  have a: "length (extract_company_name '' Acme  '') \<le> 50" using t by blast
  have b: "\<not> isspace (hd (extract_company_name '' Acme  ''))" using t ne by blast
  have c: "\<not> isspace (last (extract_company_name '' Acme  ''))" using t ne by blast
  have so: "set_order test_env = remdups" by (simp add: test_env_def)
  have p: "py_set_order (set_order test_env)" by (simp add: so py_set_order_remdups)
  have q: "process_single_paper test_env ''12345'' paper_1 \<noteq> None" by code_simp
  have r: "company_affiliations (the (process_single_paper test_env ''12345'' paper_1)) = ''Pfizer Inc.''"
    by code_simp
  have l: "length (company_affiliations (the (process_single_paper test_env ''12345'' paper_1))) \<le> 50"
    by (simp add: r)
  show ?thesis by (intro conjI e a b c p q r l)
qed

section \<open>The publication date\<close>

lemma split_ws_aux_skip:
  "\<forall>c\<in>set ws. isspace c \<Longrightarrow> split_ws_aux [] (ws @ s) = split_ws_aux [] s"
  by (induction ws) auto

lemma split_ws_aux_token:
  "\<forall>c\<in>set tok. \<not> isspace c \<Longrightarrow> split_ws_aux cur (tok @ s) = split_ws_aux (rev tok @ cur) s"
  by (induction tok arbitrary: cur) auto

lemma split_ws_aux_end:
  "cur \<noteq> [] \<Longrightarrow> rest = [] \<or> isspace (hd rest) \<Longrightarrow>
   \<exists>more. split_ws_aux cur rest = rev cur # more"
  by (cases rest) auto

lemma str_split_first_token:
  assumes "\<forall>c\<in>set ws. isspace c" and "tok \<noteq> []" and "\<forall>c\<in>set tok. \<not> isspace c"
    and "rest = [] \<or> isspace (hd rest)"
  shows "\<exists>more. str_split (ws @ tok @ rest) = tok # more"
proof -
  have "str_split (ws @ tok @ rest) = split_ws_aux [] (tok @ rest)"
    using assms(1) by (simp add: str_split_def split_ws_aux_skip)
  also have "\<dots> = split_ws_aux (rev tok) rest"
    using assms(3) split_ws_aux_token [of tok "[]" rest] by simp
  finally have "str_split (ws @ tok @ rest) = split_ws_aux (rev tok) rest" .
  moreover have "\<exists>more. split_ws_aux (rev tok) rest = rev (rev tok) # more"
    using assms(2,4) by (intro split_ws_aux_end) auto
  ultimately show ?thesis by simp
qed

lemma str_split_blank: "\<forall>c\<in>set s. isspace c \<Longrightarrow> str_split s = []"
  using split_ws_aux_skip [of s "[]"] by (simp add: str_split_def)

lemma publication_date_body_cases:
  "publication_date_body a =
     (case pub_date_of a of
        None \<Rightarrow> Inr ''Unknown''
      | Some pd \<Rightarrow>
         (case Year pd of
            Some y \<Rightarrow>
              (case Month pd of
                 Some m \<Rightarrow>
                   (case Day pd of
                      Some d \<Rightarrow> Inr (y @ ''-'' @ m @ ''-'' @ d)
                    | None \<Rightarrow> Inr (y @ ''-'' @ m))
               | None \<Rightarrow> Inr y)
          | None \<Rightarrow>
              (case MedlineDate pd of
                 Some md \<Rightarrow> (case str_split md of [] \<Rightarrow> Inl IndexError | tok # _ \<Rightarrow> Inr tok)
               | None \<Rightarrow> Inr ''Unknown'')))"
  by (simp add: publication_date_body_def pub_date_of_def split: option.splits)

text \<open>
  C6: the publication date of an article. Without the path Journal, JournalIssue, PubDate it
  is "Unknown". With it: Year, Month and Day give "Year-Month-Day"; Year and Month without
  Day give "Year-Month"; Year without Month gives the year; without Year, a MedlineDate gives
  its first whitespace-delimited token, and a MedlineDate with no token (empty, or all
  whitespace) makes the body raise IndexError, which is caught and gives "Unknown"; without
  Year and MedlineDate it is "Unknown".
\<close>

theorem publication_date_precedence:
  "(pub_date_of a = None \<longrightarrow> extract_publication_date a = ''Unknown'') \<and>
   (\<forall>pd. pub_date_of a = Some pd \<longrightarrow>
      (\<forall>y m d. Year pd = Some y \<and> Month pd = Some m \<and> Day pd = Some d \<longrightarrow>
         extract_publication_date a = y @ ''-'' @ m @ ''-'' @ d) \<and>
      (\<forall>y m. Year pd = Some y \<and> Month pd = Some m \<and> Day pd = None \<longrightarrow>
         extract_publication_date a = y @ ''-'' @ m) \<and>
      (\<forall>y. Year pd = Some y \<and> Month pd = None \<longrightarrow> extract_publication_date a = y) \<and>
      (\<forall>md. Year pd = None \<and> MedlineDate pd = Some md \<longrightarrow>
         (\<forall>ws tok rest.
            md = ws @ tok @ rest \<and> (\<forall>c\<in>set ws. isspace c) \<and> tok \<noteq> [] \<and>
            (\<forall>c\<in>set tok. \<not> isspace c) \<and> (rest = [] \<or> isspace (hd rest)) \<longrightarrow>
            extract_publication_date a = tok) \<and>
         ((\<forall>c\<in>set md. isspace c) \<longrightarrow>
            publication_date_body a = Inl IndexError \<and> extract_publication_date a = ''Unknown'')) \<and>
      (Year pd = None \<and> MedlineDate pd = None \<longrightarrow> extract_publication_date a = ''Unknown''))"
proof (intro conjI allI impI)
  assume "pub_date_of a = None"
  then show "extract_publication_date a = ''Unknown''"
    by (simp add: extract_publication_date_def publication_date_body_cases)
next
  fix pd y m d
  assume "pub_date_of a = Some pd" "Year pd = Some y \<and> Month pd = Some m \<and> Day pd = Some d"
  then show "extract_publication_date a = y @ ''-'' @ m @ ''-'' @ d"
    by (simp add: extract_publication_date_def publication_date_body_cases)
next
  fix pd y m
  assume "pub_date_of a = Some pd" "Year pd = Some y \<and> Month pd = Some m \<and> Day pd = None"
  then show "extract_publication_date a = y @ ''-'' @ m"
    by (simp add: extract_publication_date_def publication_date_body_cases)
next
  fix pd y
  assume "pub_date_of a = Some pd" "Year pd = Some y \<and> Month pd = None"
  then show "extract_publication_date a = y"
    by (simp add: extract_publication_date_def publication_date_body_cases)
next
  fix pd md ws tok rest
  assume p: "pub_date_of a = Some pd" "Year pd = None \<and> MedlineDate pd = Some md"
    and d: "md = ws @ tok @ rest \<and> (\<forall>c\<in>set ws. isspace c) \<and> tok \<noteq> [] \<and>
            (\<forall>c\<in>set tok. \<not> isspace c) \<and> (rest = [] \<or> isspace (hd rest))"
  obtain more where "str_split md = tok # more"
    using d str_split_first_token [of ws tok rest] by blast
  then show "extract_publication_date a = tok"
    using p by (simp add: extract_publication_date_def publication_date_body_cases)
next
  fix pd md
  assume p: "pub_date_of a = Some pd" "Year pd = None \<and> MedlineDate pd = Some md"
    and b: "\<forall>c\<in>set md. isspace c"
  have s: "str_split md = []" using b by (rule str_split_blank)
  show "publication_date_body a = Inl IndexError"
    using p s by (simp add: publication_date_body_cases)
  then show "extract_publication_date a = ''Unknown''"
    by (simp add: extract_publication_date_def)
next
  fix pd
  assume "pub_date_of a = Some pd" "Year pd = None \<and> MedlineDate pd = None"
  then show "extract_publication_date a = ''Unknown''"
    by (simp add: extract_publication_date_def publication_date_body_cases)
qed

theorem publication_date_precedence_witness:
  "extract_publication_date
     (article_dated \<lparr>Year = Some ''2023'', Month = Some ''Jan'', Day = Some ''15'', MedlineDate = None\<rparr>)
     = ''2023-Jan-15'' \<and>
   extract_publication_date (article_dated (medline_only ''2020 Winter'')) = ''2020'' \<and>
   publication_date_body (article_dated (medline_only '''')) = Inl IndexError \<and>
   extract_publication_date (article_dated (medline_only '''')) = ''Unknown'' \<and>
   pub_date_of empty_article = None \<and>
   extract_publication_date empty_article = ''Unknown''"
proof -
  let ?full = "\<lparr>Year = Some ''2023'', Month = Some ''Jan'', Day = Some ''15'', MedlineDate = None\<rparr>"
  have pd: "\<And>d. pub_date_of (article_dated d) = Some d"
    by (simp add: pub_date_of_def article_dated_def)
  have f: "Year ?full = Some ''2023'' \<and> Month ?full = Some ''Jan'' \<and> Day ?full = Some ''15''"
    by simp
  note t1 = publication_date_precedence [of "article_dated ?full", THEN conjunct2, THEN spec,
      THEN mp, OF pd, THEN conjunct1, THEN spec, THEN spec, THEN spec, THEN mp, OF f]
  have a: "extract_publication_date (article_dated ?full) = ''2023-Jan-15''"
    using t1 by simp
  have ym: "\<And>s. Year (medline_only s) = None \<and> MedlineDate (medline_only s) = Some s"
    by (simp add: medline_only_def)
  note t4 = publication_date_precedence [of "article_dated (medline_only ''2020 Winter'')",
      THEN conjunct2, THEN spec, THEN mp, OF pd, THEN conjunct2, THEN conjunct2, THEN conjunct2,
      THEN conjunct1, THEN spec, THEN mp, OF ym]
  have tkns: "list_all (\<lambda>c. \<not> isspace c) ''2020''" by code_simp
  have hw: "isspace (hd '' Winter'')" by code_simp
  have h: "''2020 Winter'' = [] @ ''2020'' @ '' Winter'' \<and> (\<forall>c\<in>set ([] :: string). isspace c) \<and>
           ''2020'' \<noteq> [] \<and> (\<forall>c\<in>set ''2020''. \<not> isspace c) \<and>
           ('' Winter'' = [] \<or> isspace (hd '' Winter''))"
    using tkns hw by (simp add: list_all_iff)
  note b = t4 [THEN conjunct1, THEN spec, THEN spec, THEN spec, THEN mp, OF h]
  note t5 = publication_date_precedence [of "article_dated (medline_only [])",
      THEN conjunct2, THEN spec, THEN mp, OF pd, THEN conjunct2, THEN conjunct2, THEN conjunct2,
      THEN conjunct1, THEN spec, THEN mp, OF ym]
  have be: "\<forall>c\<in>set ([] :: string). isspace c" by simp
  note c = t5 [THEN conjunct2, THEN mp, OF be]
  have n: "pub_date_of empty_article = None" by (simp add: pub_date_of_def empty_article_def)
  note dd = publication_date_precedence [of empty_article, THEN conjunct1, THEN mp, OF n]
  show ?thesis by (intro conjI a b n dd c [THEN conjunct1] c [THEN conjunct2])
qed

section \<open>The pipeline\<close>

lemma papers_loop_step:
  "papers_loop env (pmid # rest) acc w =
     papers_loop env rest
       (acc @ (case qualifying env pmid (fst (fetch_paper_details env w pmid)) of
                 None \<Rightarrow> [] | Some p \<Rightarrow> [p]))
       (snd (fetch_paper_details env w pmid))"
  by (cases "fetch_paper_details env w pmid")
     (simp add: qualifying_def split: option.splits)

lemma fetch_trace_step:
  "fetch_trace env w (pmid # rest) =
     fst (fetch_paper_details env w pmid) # fetch_trace env (snd (fetch_paper_details env w pmid)) rest"
  by (cases "fetch_paper_details env w pmid") simp

lemma papers_loop_map_filter:
  "fst (papers_loop env pmids acc w) =
     acc @ List.map_filter (\<lambda>(pmid, paper). qualifying env pmid paper)
             (zip pmids (fetch_trace env w pmids))"
proof (induction pmids arbitrary: acc w)
  case Nil
  then show ?case by (simp add: List.map_filter_simps)
next
  case (Cons pmid rest)
  show ?case
    by (simp only: papers_loop_step fetch_trace_step Cons.IH zip_Cons_Cons List.map_filter_simps)
       (simp split: option.splits)
qed

lemma fetch_failure_empty:
  "efetch env w pmid = (Inl e, w') \<Longrightarrow> fetch_paper_details env w pmid = (empty_paper, w')"
  by (simp add: fetch_paper_details_def)

lemma fetch_no_article_empty:
  "efetch env w pmid = (Inr [], w') \<Longrightarrow> fetch_paper_details env w pmid = (empty_paper, w')"
  by (simp add: fetch_paper_details_def)

lemma paper_falsy_empty: "paper_falsy empty_paper"
  by (simp add: paper_falsy_def empty_paper_def)

lemma qualifying_empty: "qualifying env pmid empty_paper = None"
  by (simp add: qualifying_def paper_falsy_empty)

lemma str_join_empty: "sep \<noteq> [] \<Longrightarrow> str_join sep xs = [] \<longleftrightarrow> xs = [] \<or> xs = [[]]"
  by (induction sep xs rule: str_join.induct) auto

lemma joined_empty:
  assumes "py_set_order f"
  shows "str_join ''; '' (f xs) = [] \<longleftrightarrow> (\<forall>x\<in>set xs. x = [])"
proof -
  have s: "set (f xs) = set xs" using assms by (simp add: py_set_order_def)
  have d: "distinct (f xs)" using assms by (simp add: py_set_order_def)
  have "str_join ''; '' (f xs) = [] \<longleftrightarrow> f xs = [] \<or> f xs = [[]]"
    by (rule str_join_empty) simp
  also have "\<dots> \<longleftrightarrow> (\<forall>x\<in>set (f xs). x = [])"
  proof
    assume "f xs = [] \<or> f xs = [[]]"
    then show "\<forall>x\<in>set (f xs). x = []" by auto
  next
    assume a: "\<forall>x\<in>set (f xs). x = []"
    show "f xs = [] \<or> f xs = [[]]"
    proof (cases "f xs")
      case Nil
      then show ?thesis by simp
    next
      case (Cons y ys)
      then have "y = []" using a by simp
      moreover have "ys = []"
      proof (cases ys)
        case Nil
        then show ?thesis .
      next
        case (Cons z zs)
        then have "z = []" using a \<open>f xs = y # ys\<close> by simp
        then show ?thesis using d \<open>f xs = y # ys\<close> \<open>y = []\<close> Cons by simp
      qed
      ultimately show ?thesis using Cons by simp
    qed
  qed
  finally show ?thesis using s by simp
qed

lemma process_papers_cases:
  "fst (process_papers env w query max_results) =
     (case fst (esearch env w query max_results) of
        Inl e \<Rightarrow> Inl e
      | Inr pmids \<Rightarrow>
          Inr (List.map_filter (\<lambda>(pmid, paper). qualifying env pmid paper)
                 (zip pmids (fetch_trace env (snd (esearch env w query max_results)) pmids))))"
proof (cases "esearch env w query max_results")
  case (Pair r w')
  show ?thesis
  proof (cases r)
    case (Inl e)
    then show ?thesis using Pair by (simp add: process_papers_def search_papers_def)
  next
    case (Inr pmids)
    obtain ps w'' where l: "papers_loop env pmids [] w' = (ps, w'')"
      by (cases "papers_loop env pmids [] w'")
    have "ps = List.map_filter (\<lambda>(pmid, paper). qualifying env pmid paper)
                 (zip pmids (fetch_trace env w' pmids))"
      using papers_loop_map_filter [of env pmids "[]" w'] l by simp
    then show ?thesis using Pair Inr l by (simp add: process_papers_def search_papers_def)
  qed
qed

text \<open>
  C8: the loop over the identifiers fetches each identifier once, in list order, and its
  result is, in that order, the summaries of the identifiers that qualify: the fetched record
  is not empty, it gives a summary, and the joined author names of the summary are not the
  empty string. The pipeline returns this list for the identifiers the search gives. Of two
  identifiers, when the fetch of one raises or finds no article, the result is what the other
  one contributes. A summary of a non-empty record qualifies if and only if some author
  with a recorded affiliation has a non-empty display name.
\<close>

theorem pipeline_skips_and_keeps_order:
  "fst (papers_loop env pmids [] w) =
     List.map_filter (\<lambda>(pmid, paper). qualifying env pmid paper)
       (zip pmids (fetch_trace env w pmids)) \<and>
   (\<forall>pmids. fst (esearch env w query max_results) = Inr pmids \<longrightarrow>
      fst (process_papers env w query max_results) =
        Inr (List.map_filter (\<lambda>(pmid, paper). qualifying env pmid paper)
               (zip pmids (fetch_trace env (snd (esearch env w query max_results)) pmids)))) \<and>
   (\<forall>e w'. efetch env w a = (Inl e, w') \<or> efetch env w a = (Inr [], w') \<longrightarrow>
      fst (papers_loop env [a, b] [] w) =
        (case qualifying env b (fst (fetch_paper_details env w' b)) of
           None \<Rightarrow> [] | Some p \<Rightarrow> [p])) \<and>
   (\<forall>e w''. efetch env (snd (fetch_paper_details env w a)) b = (Inl e, w'') \<or>
            efetch env (snd (fetch_paper_details env w a)) b = (Inr [], w'') \<longrightarrow>
      fst (papers_loop env [a, b] [] w) =
        (case qualifying env a (fst (fetch_paper_details env w a)) of
           None \<Rightarrow> [] | Some p \<Rightarrow> [p])) \<and>
   (\<forall>p. py_set_order (set_order env) \<and> \<not> paper_falsy paper \<and>
        process_single_paper env pmid paper = Some p \<longrightarrow>
      (qualifying env pmid paper = Some p \<longleftrightarrow>
         (\<exists>au\<in>set (paper_authors paper).
            (\<exists>s\<in>set (author_affiliations au). recorded s) \<and> format_author_name au \<noteq> [])))"
proof (intro conjI allI impI)
  show "fst (papers_loop env pmids [] w) =
     List.map_filter (\<lambda>(pmid, paper). qualifying env pmid paper)
       (zip pmids (fetch_trace env w pmids))"
    using papers_loop_map_filter [of env pmids "[]" w] by simp
next
  fix pmids
  assume "fst (esearch env w query max_results) = Inr pmids"
  then show "fst (process_papers env w query max_results) =
        Inr (List.map_filter (\<lambda>(pmid, paper). qualifying env pmid paper)
               (zip pmids (fetch_trace env (snd (esearch env w query max_results)) pmids)))"
    by (simp add: process_papers_cases)
next
  fix e w'
  assume "efetch env w a = (Inl e, w') \<or> efetch env w a = (Inr [], w')"
  then have f: "fetch_paper_details env w a = (empty_paper, w')"
    by (auto simp: fetch_paper_details_def)
  show "fst (papers_loop env [a, b] [] w) =
        (case qualifying env b (fst (fetch_paper_details env w' b)) of
           None \<Rightarrow> [] | Some p \<Rightarrow> [p])"
    by (simp only: papers_loop_step f fst_conv snd_conv qualifying_empty)
       (simp split: option.splits)
next
  fix e w''
  let ?w' = "snd (fetch_paper_details env w a)"
  assume "efetch env ?w' b = (Inl e, w'') \<or> efetch env ?w' b = (Inr [], w'')"
  then have f: "fetch_paper_details env ?w' b = (empty_paper, w'')"
    by (auto simp: fetch_paper_details_def)
  show "fst (papers_loop env [a, b] [] w) =
        (case qualifying env a (fst (fetch_paper_details env w a)) of
           None \<Rightarrow> [] | Some p \<Rightarrow> [p])"
    by (simp only: papers_loop_step f fst_conv snd_conv qualifying_empty)
       (simp split: option.splits)
next
  fix p
  assume h: "py_set_order (set_order env) \<and> \<not> paper_falsy paper \<and>
        process_single_paper env pmid paper = Some p"
  have "non_academic_authors p =
          str_join ''; '' (set_order env (fst (collect_non_academic (article_of paper))))"
    using process_single_paper_Some [of env pmid paper p] h by simp
  then have "non_academic_authors p = [] \<longleftrightarrow>
          (\<forall>x\<in>set (fst (collect_non_academic (article_of paper))). x = [])"
    using joined_empty [of "set_order env"] h by simp
  also have "\<dots> \<longleftrightarrow> \<not> (\<exists>au\<in>set (paper_authors paper).
            (\<exists>s\<in>set (author_affiliations au). recorded s) \<and> format_author_name au \<noteq> [])"
    unfolding collect_authors_set by blast
  finally show "qualifying env pmid paper = Some p \<longleftrightarrow>
         (\<exists>au\<in>set (paper_authors paper).
            (\<exists>s\<in>set (author_affiliations au). recorded s) \<and> format_author_name au \<noteq> [])"
    using h by (auto simp: qualifying_def)
qed

theorem pipeline_skips_and_keeps_order_witness:
  "efetch test_env 0 ''12345'' = (Inl (EntrezError ''HTTP Error 500''), 1) \<and>
   fst (papers_loop test_env [''12345'', ''67890''] [] 0) =
     [\<lparr>PubmedID = ''67890'', Title = ''Test Paper 1'', Publication_Date = ''2023'',
       non_academic_authors = ''Smith John'', company_affiliations = ''Pfizer Inc.'',
       corresponding_email = ''Not available''\<rparr>] \<and>
   fst (esearch test_env 0 ''cancer'' 2) = Inr [''12345'', ''67890''] \<and>
   fst (process_papers test_env 0 ''cancer'' 2) =
     Inr [\<lparr>PubmedID = ''67890'', Title = ''Test Paper 1'', Publication_Date = ''2023'',
           non_academic_authors = ''Smith John'', company_affiliations = ''Pfizer Inc.'',
           corresponding_email = ''Not available''\<rparr>]"
proof -
  let ?p = "\<lparr>PubmedID = ''67890'', Title = ''Test Paper 1'', Publication_Date = ''2023'',
       non_academic_authors = ''Smith John'', company_affiliations = ''Pfizer Inc.'',
       corresponding_email = ''Not available''\<rparr>"
  have f: "efetch test_env 0 ''12345'' = (Inl (EntrezError ''HTTP Error 500''), 1)"
    by (simp add: test_env_def)
  have q: "(case qualifying test_env ''67890'' (fst (fetch_paper_details test_env 1 ''67890'')) of
              None \<Rightarrow> [] | Some p \<Rightarrow> [p]) = [?p]"
    by code_simp
  note t = pipeline_skips_and_keeps_order [of test_env _ 0 _ _ "''12345''" "''67890''",
      THEN conjunct2, THEN conjunct2, THEN conjunct1, THEN spec, THEN spec, THEN mp,
      OF disjI1, OF f]
  have a: "fst (papers_loop test_env [''12345'', ''67890''] [] 0) = [?p]"
    using t q by (simp only:)
  have s: "fst (esearch test_env 0 ''cancer'' 2) = Inr [''12345'', ''67890'']"
    by (simp add: test_env_def)
  have m: "List.map_filter (\<lambda>(pmid, paper). qualifying test_env pmid paper)
               (zip [''12345'', ''67890'']
                  (fetch_trace test_env (snd (esearch test_env 0 ''cancer'' 2)) [''12345'', ''67890'']))
           = [?p]"
    by code_simp
  note u = pipeline_skips_and_keeps_order [of test_env _ 0 "''cancer''" 2,
      THEN conjunct2, THEN conjunct1, THEN spec, THEN mp, OF s]
  have b: "fst (process_papers test_env 0 ''cancer'' 2) = Inr [?p]"
    using u m by (simp only:)
  show ?thesis by (intro conjI f a s b)
qed

section \<open>The table writer\<close>

lemma write_rows_concat:
  "write_rows ps out = out @ concat (map (\<lambda>p. csv_writerow (row_of p)) ps)"
  by (induction ps arbitrary: out) auto

lemma generate_csv_rows:
  "ps \<noteq> [] \<Longrightarrow> generate_csv ps = concat (map csv_writerow (fieldnames # map row_of ps))"
  by (simp add: generate_csv_def write_rows_concat comp_def)

lemma scan_quoted:
  "csv_scan Quoted fld row (csv_escape f @ CHR 0x22 # rest) = csv_scan QuoteSeen (rev f @ fld) row rest"
  by (induction f arbitrary: fld) (simp_all add: csv_escape_def csv_step_def)

lemma scan_unquoted:
  "\<forall>c\<in>set f. \<not> csv_special c \<Longrightarrow>
   csv_scan Unquoted fld row (f @ rest) = csv_scan Unquoted (rev f @ fld) row rest"
  by (induction f arbitrary: fld) (simp_all add: csv_step_def unquoted_step_def csv_special_def)

lemma scan_field_comma:
  "csv_scan FieldStart [] row (csv_field f @ CHR '','' # rest) = csv_scan FieldStart [] (f # row) rest"
proof (cases "list_ex csv_special f")
  case True
  then have "csv_field f = CHR 0x22 # csv_escape f @ [CHR 0x22]"
    by (simp add: csv_field_def csv_escape_def)
  then show ?thesis
    by (simp add: csv_step_def unquoted_step_def scan_quoted)
next
  case False
  then have n: "\<forall>c\<in>set f. \<not> csv_special c" by (simp add: list_ex_iff)
  have e: "csv_field f = f" using False by (simp add: csv_field_def)
  show ?thesis
  proof (cases f)
    case Nil
    then show ?thesis using e by (simp add: csv_step_def unquoted_step_def)
  next
    case (Cons c f')
    then have c: "\<not> csv_special c" and n': "\<forall>c\<in>set f'. \<not> csv_special c" using n by auto
    have "csv_scan FieldStart [] row (c # f' @ CHR '','' # rest) =
          csv_scan Unquoted [c] row (f' @ CHR '','' # rest)"
      using c by (simp add: csv_step_def unquoted_step_def csv_special_def)
    also have "\<dots> = csv_scan Unquoted (rev f' @ [c]) row (CHR '','' # rest)"
      using n' by (rule scan_unquoted)
    also have "\<dots> = csv_scan FieldStart [] (f # row) rest"
      using Cons by (simp add: csv_step_def unquoted_step_def)
    finally show ?thesis using e Cons by simp
  qed
qed

lemma scan_field_crlf:
  "csv_scan FieldStart [] row (csv_field f @ CHR 0x0D # CHR 0x0A # rest) =
     rev (f # row) # csv_scan RowStart [] [] rest"
proof (cases "list_ex csv_special f")
  case True
  then have "csv_field f = CHR 0x22 # csv_escape f @ [CHR 0x22]"
    by (simp add: csv_field_def csv_escape_def)
  then show ?thesis
    by (simp add: csv_step_def unquoted_step_def scan_quoted)
next
  case False
  then have n: "\<forall>c\<in>set f. \<not> csv_special c" by (simp add: list_ex_iff)
  have e: "csv_field f = f" using False by (simp add: csv_field_def)
  show ?thesis
  proof (cases f)
    case Nil
    then show ?thesis using e by (simp add: csv_step_def unquoted_step_def)
  next
    case (Cons c f')
    then have c: "\<not> csv_special c" and n': "\<forall>c\<in>set f'. \<not> csv_special c" using n by auto
    have "csv_scan FieldStart [] row (c # f' @ CHR 0x0D # CHR 0x0A # rest) =
          csv_scan Unquoted [c] row (f' @ CHR 0x0D # CHR 0x0A # rest)"
      using c by (simp add: csv_step_def unquoted_step_def csv_special_def)
    also have "\<dots> = csv_scan Unquoted (rev f' @ [c]) row (CHR 0x0D # CHR 0x0A # rest)"
      using n' by (rule scan_unquoted)
    also have "\<dots> = rev (f # row) # csv_scan RowStart [] [] rest"
      using Cons by (simp add: csv_step_def unquoted_step_def)
    finally show ?thesis using e Cons by simp
  qed
qed

lemma scan_row_start_comma:
  "csv_scan RowStart [] [] (csv_field f @ CHR '','' # rest) =
   csv_scan FieldStart [] [] (csv_field f @ CHR '','' # rest)"
proof (cases "list_ex csv_special f")
  case True
  then have "csv_field f = CHR 0x22 # csv_escape f @ [CHR 0x22]"
    by (simp add: csv_field_def csv_escape_def)
  then show ?thesis
    by (simp add: csv_step_def row_start_step_def)
next
  case False
  then have n: "\<forall>c\<in>set f. \<not> csv_special c" by (simp add: list_ex_iff)
  have e: "csv_field f = f" using False by (simp add: csv_field_def)
  show ?thesis
  proof (cases f)
    case Nil
    then show ?thesis using e by (simp add: csv_step_def row_start_step_def unquoted_step_def)
  next
    case (Cons c f')
    then have "\<not> csv_special c" using n by auto
    then show ?thesis using e Cons
      by (simp add: csv_step_def row_start_step_def unquoted_step_def csv_special_def)
  qed
qed

lemma scan_fields:
  "fs \<noteq> [] \<Longrightarrow>
   csv_scan FieldStart [] row (str_join '','' (map csv_field fs) @ CHR 0x0D # CHR 0x0A # rest) =
     rev (rev fs @ row) # csv_scan RowStart [] [] rest"
proof (induction fs arbitrary: row)
  case Nil
  then show ?case by simp
next
  case (Cons f gs)
  show ?case
  proof (cases gs)
    case Nil
    then show ?thesis by (simp add: scan_field_crlf)
  next
    case (Cons g hs)
    have "csv_scan FieldStart [] row
            (str_join '','' (map csv_field (f # gs)) @ CHR 0x0D # CHR 0x0A # rest) =
          csv_scan FieldStart [] row
            (csv_field f @ CHR '','' # (str_join '','' (map csv_field gs) @ CHR 0x0D # CHR 0x0A # rest))"
      using Cons by simp
    also have "\<dots> = csv_scan FieldStart [] (f # row)
            (str_join '','' (map csv_field gs) @ CHR 0x0D # CHR 0x0A # rest)"
      by (rule scan_field_comma)
    also have "\<dots> = rev (rev gs @ f # row) # csv_scan RowStart [] [] rest"
      using Cons Cons.IH [of "f # row"] by simp
    finally show ?thesis by simp
  qed
qed

lemma scan_writerow:
  assumes "2 \<le> length fs"
  shows "csv_scan RowStart [] [] (csv_writerow fs @ rest) = fs # csv_scan RowStart [] [] rest"
proof -
  obtain f g hs where fs: "fs = f # g # hs"
    using assms by (cases fs; cases "tl fs") auto
  let ?tail = "str_join '','' (map csv_field (g # hs)) @ CHR 0x0D # CHR 0x0A # rest"
  have "csv_writerow fs @ rest = csv_field f @ CHR '','' # ?tail"
    using fs by (simp add: csv_writerow_def)
  then have "csv_scan RowStart [] [] (csv_writerow fs @ rest) =
             csv_scan FieldStart [] [] (csv_field f @ CHR '','' # ?tail)"
    by (simp only: scan_row_start_comma)
  also have "\<dots> = csv_scan FieldStart [] [f] ?tail"
    by (rule scan_field_comma)
  also have "\<dots> = rev (rev (g # hs) @ [f]) # csv_scan RowStart [] [] rest"
    by (rule scan_fields) simp
  finally show ?thesis using fs by simp
qed

lemma csv_rows_written:
  "\<forall>r\<in>set rows. 2 \<le> length r \<Longrightarrow> csv_rows (concat (map csv_writerow rows)) = rows"
  unfolding csv_rows_def
  by (induction rows) (simp_all add: scan_writerow)

lemma csv_rows_generate_csv:
  assumes "ps \<noteq> []"
  shows "csv_rows (generate_csv ps) = fieldnames # map row_of ps"
proof -
  have "\<forall>r\<in>set (fieldnames # map row_of ps). 2 \<le> length r"
    by (auto simp: fieldnames_def row_of_def)
  then show ?thesis
    using csv_rows_written [of "fieldnames # map row_of ps"] generate_csv_rows [OF assms]
    by simp
qed

text \<open>
  C7: for no summaries the report is the sentence "No papers with non-academic affiliations
  found."; for a non-empty list it is the text of the header row followed by one row for
  each summary in list order, and reading that text as CSV gives back exactly these rows,
  one more than there are summaries. The header is the six column labels in their order and
  a row is the six values of a summary in the same order. In a summary the authors field
  and the companies field are each the elements of a set joined by "; ", and the email
  field is "Not available" when no email was found.
\<close>

theorem csv_report:
  "generate_csv [] = ''No papers with non-academic affiliations found.'' \<and>
   (ps \<noteq> [] \<longrightarrow>
      generate_csv ps = concat (map csv_writerow (fieldnames # map row_of ps)) \<and>
      csv_rows (generate_csv ps) = fieldnames # map row_of ps \<and>
      length (csv_rows (generate_csv ps)) = length ps + 1) \<and>
   fieldnames =
     [''PubmedID'', ''Title'', ''Publication Date'', ''Non-academic Author(s)'',
      ''Company Affiliation(s)'', ''Corresponding Author Email''] \<and>
   row_of p =
     [PubmedID p, Title p, Publication_Date p, non_academic_authors p, company_affiliations p,
      corresponding_email p] \<and>
   (py_set_order (set_order env) \<and> process_single_paper env pmid paper = Some s \<longrightarrow>
      (\<exists>names. distinct names \<and>
         set names = format_author_name `
           {au \<in> set (paper_authors paper). \<exists>a\<in>set (author_affiliations au). recorded a} \<and>
         non_academic_authors s = str_join ''; '' names) \<and>
      (\<exists>companies. distinct companies \<and>
         set companies = (\<Union>au\<in>set (paper_authors paper).
            extract_company_name ` {a \<in> set (author_affiliations au). recorded a}) \<and>
         company_affiliations s = str_join ''; '' companies) \<and>
      corresponding_email s =
        (case extract_corresponding_email env paper of
           None \<Rightarrow> ''Not available''
         | Some e \<Rightarrow> if e = [] then ''Not available'' else e))"
proof (intro conjI impI)
  show "generate_csv [] = ''No papers with non-academic affiliations found.''"
    by (simp add: generate_csv_def)
  show "fieldnames =
     [''PubmedID'', ''Title'', ''Publication Date'', ''Non-academic Author(s)'',
      ''Company Affiliation(s)'', ''Corresponding Author Email'']"
    by (simp add: fieldnames_def)
  show "row_of p =
     [PubmedID p, Title p, Publication_Date p, non_academic_authors p, company_affiliations p,
      corresponding_email p]"
    by (simp add: row_of_def)
next
  assume n: "ps \<noteq> []"
  show "generate_csv ps = concat (map csv_writerow (fieldnames # map row_of ps))"
    using n by (rule generate_csv_rows)
  show r: "csv_rows (generate_csv ps) = fieldnames # map row_of ps"
    using n by (rule csv_rows_generate_csv)
  show "length (csv_rows (generate_csv ps)) = length ps + 1"
    by (simp add: r)
next
  assume h: "py_set_order (set_order env) \<and> process_single_paper env pmid paper = Some s"
  note s = process_single_paper_Some [of env pmid paper s]
  have o: "\<And>xs. distinct (set_order env xs) \<and> set (set_order env xs) = set xs"
    using h by (simp add: py_set_order_def)
  let ?names = "set_order env (fst (collect_non_academic (article_of paper)))"
  let ?companies = "set_order env (snd (collect_non_academic (article_of paper)))"
  have "distinct ?names \<and>
         set ?names = format_author_name `
           {au \<in> set (paper_authors paper). \<exists>a\<in>set (author_affiliations au). recorded a} \<and>
         non_academic_authors s = str_join ''; '' ?names"
    using s h o by (simp add: collect_authors_set)
  then show "\<exists>names. distinct names \<and>
         set names = format_author_name `
           {au \<in> set (paper_authors paper). \<exists>a\<in>set (author_affiliations au). recorded a} \<and>
         non_academic_authors s = str_join ''; '' names"
    by (rule exI)
  have "distinct ?companies \<and>
         set ?companies = (\<Union>au\<in>set (paper_authors paper).
            extract_company_name ` {a \<in> set (author_affiliations au). recorded a}) \<and>
         company_affiliations s = str_join ''; '' ?companies"
    using s h o by (simp add: collect_companies)
  then show "\<exists>companies. distinct companies \<and>
         set companies = (\<Union>au\<in>set (paper_authors paper).
            extract_company_name ` {a \<in> set (author_affiliations au). recorded a}) \<and>
         company_affiliations s = str_join ''; '' companies"
    by (rule exI)
  show "corresponding_email s =
        (case extract_corresponding_email env paper of
           None \<Rightarrow> ''Not available''
         | Some e \<Rightarrow> if e = [] then ''Not available'' else e)"
    using s h by (simp split: option.splits)
qed

theorem csv_report_witness:
  "process_single_paper test_env ''12345'' paper_1 =
     Some \<lparr>PubmedID = ''12345'', Title = ''Test Paper 1'', Publication_Date = ''2023'',
           non_academic_authors = ''Smith John'', company_affiliations = ''Pfizer Inc.'',
           corresponding_email = ''Not available''\<rparr> \<and>
   csv_rows (generate_csv [the (process_single_paper test_env ''12345'' paper_1)]) =
     [[''PubmedID'', ''Title'', ''Publication Date'', ''Non-academic Author(s)'',
       ''Company Affiliation(s)'', ''Corresponding Author Email''],
      [''12345'', ''Test Paper 1'', ''2023'', ''Smith John'', ''Pfizer Inc.'', ''Not available'']] \<and>
   length (csv_rows (generate_csv [the (process_single_paper test_env ''12345'' paper_1)])) = 2 \<and>
   py_set_order (set_order test_env) \<and>
   extract_corresponding_email test_env paper_1 = None \<and>
   corresponding_email (the (process_single_paper test_env ''12345'' paper_1)) = ''Not available''"
proof -
  let ?s = "\<lparr>PubmedID = ''12345'', Title = ''Test Paper 1'', Publication_Date = ''2023'',
           non_academic_authors = ''Smith John'', company_affiliations = ''Pfizer Inc.'',
           corresponding_email = ''Not available''\<rparr>"
  have p: "process_single_paper test_env ''12345'' paper_1 = Some ?s" by code_simp
  have ne: "[?s] \<noteq> []" by simp
  note t = csv_report [of "[?s]", THEN conjunct2, THEN conjunct1, THEN mp, OF ne]
  have f: "fieldnames # map row_of [?s] =
     [[''PubmedID'', ''Title'', ''Publication Date'', ''Non-academic Author(s)'',
       ''Company Affiliation(s)'', ''Corresponding Author Email''],
      [''12345'', ''Test Paper 1'', ''2023'', ''Smith John'', ''Pfizer Inc.'', ''Not available'']]"
    by (simp add: fieldnames_def row_of_def)
  have a: "csv_rows (generate_csv [?s]) =
     [[''PubmedID'', ''Title'', ''Publication Date'', ''Non-academic Author(s)'',
       ''Company Affiliation(s)'', ''Corresponding Author Email''],
      [''12345'', ''Test Paper 1'', ''2023'', ''Smith John'', ''Pfizer Inc.'', ''Not available'']]"
    using t [THEN conjunct2, THEN conjunct1] f by (simp only:)
  have b: "length (csv_rows (generate_csv [?s])) = 2"
    using t [THEN conjunct2, THEN conjunct2] by simp
  have o: "py_set_order (set_order test_env)"
    by (simp add: test_env_def py_set_order_remdups)
  have e: "extract_corresponding_email test_env paper_1 = None"
    by (simp add: test_env_def)
  note u = csv_report [of _ _ test_env "''12345''" paper_1 ?s, THEN conjunct2, THEN conjunct2,
      THEN conjunct2, THEN conjunct2, THEN mp, OF conjI, OF o p, THEN conjunct2, THEN conjunct2]
  have c: "corresponding_email ?s = ''Not available''"
    using u e by (simp only: option.case)
  show ?thesis using p a b o e c by (simp only: option.sel simp_thms)
qed

end
